theory Spec2Isabelle
  imports Complex_Main "HOL-Library.AList"
begin

section \<open>Data model (wfcommons.common, as used by wfbench/bench.py)\<close>

text \<open>
  The classes \<open>File\<close>, \<open>FileLink\<close>, \<open>Task\<close> and \<open>Workflow\<close> are imported by
  \<open>bench.py\<close> from \<open>..common\<close>; the records below hold the fields that \<open>bench.py\<close>
  reads and writes. A Python \<open>dict\<close> that is iterated is an association list in insertion
  order (\<open>d[k] = v\<close> is \<open>AList.update\<close>: an existing key keeps its place); a \<open>dict\<close> that
  is only indexed is a map, and a missing key is a \<open>KeyError\<close>.
\<close>

datatype FileLink = INPUT | OUTPUT

record File =
  f_name :: string
  f_size :: int
  f_link :: FileLink

record Task =
  t_name :: string
  category :: string
  runtime :: rat
  files :: "File list"
  program :: string
  args :: "string list"

text \<open>
  Modelled from the spec: the \<open>Workflow\<close> class is not among the sources. \<open>tasks\<close> is its
  dict from task name to Task, each task stored under its own name, given as the list of
  its values in insertion order; \<open>tasks_parents\<close> and \<open>tasks_children\<close> are its dicts
  from a task name to the names of the task's parents and children.
\<close>

record Workflow =
  wf_name :: string
  tasks :: "Task list"
  tasks_parents :: "string \<rightharpoonup> string list"
  tasks_children :: "string \<rightharpoonup> string list"

datatype error =
    KeyError string
  | ZeroDivisionError
  | OverflowError
  | UnboundLocalError string
  | ValueError
  | FileNotFoundError

text \<open>\<open>self.workflow.tasks[n]\<close>\<close>

definition tasks_getitem :: "Workflow \<Rightarrow> string \<Rightarrow> error + Task" where
  "tasks_getitem w n =
     (case find (\<lambda>t. t_name t = n) (tasks w) of
        None \<Rightarrow> Inl (KeyError n)
      | Some t \<Rightarrow> Inr t)"

text \<open>\<open>d[k]\<close> on a dict that is only indexed\<close>

definition getitem :: "(string \<rightharpoonup> 'v) \<Rightarrow> string \<Rightarrow> error + 'v" where
  "getitem d k = (case d k of None \<Rightarrow> Inl (KeyError k) | Some v \<Rightarrow> Inr v)"

text \<open>\<open>d[k]\<close> and \<open>d.setdefault(k, v)\<close> on a dict kept in insertion order\<close>

definition agetitem :: "(string \<times> 'v) list \<Rightarrow> string \<Rightarrow> error + 'v" where
  "agetitem d k = (case map_of d k of None \<Rightarrow> Inl (KeyError k) | Some v \<Rightarrow> Inr v)"

definition setdefault :: "(string \<times> 'v) list \<Rightarrow> string \<Rightarrow> 'v \<Rightarrow> (string \<times> 'v) list" where
  "setdefault d k v = (case map_of d k of None \<Rightarrow> d @ [(k, v)] | Some _ \<Rightarrow> d)"

text \<open>\<open>d[k1][k2] = v\<close>: the inner dict \<open>d[k1]\<close> must exist\<close>

definition setitem2 ::
  "(string \<times> (string \<times> 'v) list) list \<Rightarrow> string \<Rightarrow> string \<Rightarrow> 'v \<Rightarrow>
   error + (string \<times> (string \<times> 'v) list) list" where
  "setitem2 d k1 k2 v =
     (case map_of d k1 of
        None \<Rightarrow> Inl (KeyError k1)
      | Some inner \<Rightarrow> Inr (AList.update k1 (AList.update k2 v inner) d))"

text \<open>A \<open>for\<close> loop whose body may raise: the first error ends the loop.\<close>

fun for_each :: "('a \<Rightarrow> 's \<Rightarrow> error + 's) \<Rightarrow> 'a list \<Rightarrow> 's \<Rightarrow> error + 's" where
  "for_each body [] s = Inr s"
| "for_each body (x # xs) s =
     (case body x s of Inl e \<Rightarrow> Inl e | Inr s' \<Rightarrow> for_each body xs s')"

text \<open>A \<open>for task in self.workflow.tasks.values()\<close> loop that mutates each task in place.\<close>

fun for_tasks :: "(Task \<Rightarrow> error + Task) \<Rightarrow> Task list \<Rightarrow> error + Task list" where
  "for_tasks body [] = Inr []"
| "for_tasks body (t # ts) =
     (case body t of
        Inl e \<Rightarrow> Inl e
      | Inr t' \<Rightarrow> (case for_tasks body ts of Inl e \<Rightarrow> Inl e | Inr ts' \<Rightarrow> Inr (t' # ts')))"

section \<open>Python's \<open>str\<close> and \<open>repr\<close> as the f-strings of bench.py use them\<close>

definition digit_char :: "nat \<Rightarrow> char" where
  "digit_char d = ''0123456789'' ! d"

fun str_nat :: "nat \<Rightarrow> string" where
  "str_nat n = (if n < 10 then [digit_char n] else str_nat (n div 10) @ [digit_char (n mod 10)])"

declare str_nat.simps [simp del]

definition str_int :: "int \<Rightarrow> string" where
  "str_int i = (if i < 0 then CHR ''-'' # str_nat (nat (- i)) else str_nat (nat i))"

text \<open>
  \<open>repr\<close> of a \<open>str\<close> of printable ASCII characters: single quotes, unless the text has a
  single quote and no double quote; the quote in use and the backslash are escaped.
\<close>

definition repr_str :: "string \<Rightarrow> string" where
  "repr_str s =
     (let q = (if CHR 0x27 \<in> set s \<and> CHR 0x22 \<notin> set s then CHR 0x22 else CHR 0x27)
      in q # concat (map (\<lambda>c. if c = q \<or> c = CHR 0x5C then [CHR 0x5C, c] else [c]) s) @ [q])"

fun join :: "string \<Rightarrow> string list \<Rightarrow> string" where
  "join sep [] = []"
| "join sep [x] = x"
| "join sep (x # y # ys) = x @ sep @ join sep (y # ys)"

text \<open>\<open>repr\<close> of a dict from \<open>str\<close> to \<open>int\<close>, as in \<open>f"--out {outputs_file_size}"\<close>\<close>

definition repr_dict :: "(string \<times> int) list \<Rightarrow> string" where
  "repr_dict d = ''{'' @ join '', '' (map (\<lambda>(k, v). repr_str k @ '': '' @ str_int v) d) @ ''}''"

text \<open>\<open>pathlib.Path.joinpath\<close> with a relative name, and its text\<close>

definition joinpath :: "string \<Rightarrow> string \<Rightarrow> string" where
  "joinpath dir n = dir @ ''/'' @ n"

section \<open>The benchmark assembler: \<open>WorkflowBenchmark.create_benchmark\<close>\<close>

text \<open>
  A parameter that is one value for all tasks or a dict from task category to value
  (\<open>Union[int, Dict[str, int]]\<close>). \<open>percent_cpu\<close> is a float that is only interpolated into
  an f-string: it is carried as the text \<open>str\<close> gives for it.
\<close>

datatype 'a param = Scalar 'a | PerCategory "(string \<times> 'a) list"

text \<open>\<open>p[task.category] if isinstance(p, dict) else p\<close>\<close>

fun param_for :: "'a param \<Rightarrow> string \<Rightarrow> error + 'a" where
  "param_for (Scalar v) c = Inr v"
| "param_for (PerCategory d) c = agetitem d c"

text \<open>Truth value of \<open>cpu_work\<close> and \<open>gpu_work\<close> in \<open>if cpu_work:\<close> (\<open>None\<close> is false).\<close>

fun truthy :: "int param \<Rightarrow> bool" where
  "truthy (Scalar n) = (n \<noteq> 0)"
| "truthy (PerCategory d) = (d \<noteq> [])"

text \<open>\<open>data\<close> when it is not \<open>None\<close>: the footprint in MB, or a dict from category to bytes
  (its values are the integers that \<open>int(data[c])\<close> yields).\<close>

datatype data_arg = DInt int | DDict "string \<rightharpoonup> int"

text \<open>
  What the assembler meets outside its arguments: the directory of \<open>bench.py\<close>, whether
  \<open>lock_files_folder.mkdir\<close> and then opening the two lock files succeed, and which files
  exist already.
\<close>

record bench_env =
  this_dir :: string
  mkdir_ok :: bool
  open_ok :: bool
  is_file :: "string \<Rightarrow> bool"

text \<open>
  Lines 115-127. The result is the binding of the local variables \<open>lock\<close> and \<open>cores\<close>
  (\<open>None\<close>: never assigned) and whether the warning was logged. Both variables are
  assigned after \<open>mkdir\<close> and before the files are opened.
\<close>

definition create_lock_files :: "bench_env \<Rightarrow> string option \<Rightarrow> (string \<times> string) option \<times> bool" where
  "create_lock_files env lock_files_folder =
     (case lock_files_folder of
        None \<Rightarrow> (None, False)
      | Some folder \<Rightarrow>
          if \<not> mkdir_ok env then (None, True)
          else (Some (joinpath folder ''cores.txt.lock'', joinpath folder ''cores.txt''),
                \<not> open_ok env))"

text \<open>Lines 131-151: the list \<open>params\<close> of one task.\<close>

definition task_params ::
  "string param \<Rightarrow> int param option \<Rightarrow> int param option \<Rightarrow> string option \<Rightarrow>
   (string \<times> string) option \<Rightarrow> Task \<Rightarrow> error + string list" where
  "task_params percent_cpu cpu_work gpu_work lock_files_folder locks task =
     (case
        (case cpu_work of
           None \<Rightarrow> Inr []
         | Some cw \<Rightarrow>
             if \<not> truthy cw then Inr []
             else
               (case param_for percent_cpu (category task) of
                  Inl e \<Rightarrow> Inl e
                | Inr pc \<Rightarrow>
                    (case param_for cw (category task) of
                       Inl e \<Rightarrow> Inl e
                     | Inr w \<Rightarrow>
                         (let params = [''--percent-cpu '' @ pc, ''--cpu-work '' @ str_int w]
                          in case lock_files_folder of
                               None \<Rightarrow> Inr params
                             | Some _ \<Rightarrow>
                                 (case locks of
                                    None \<Rightarrow> Inl (UnboundLocalError ''lock'')
                                  | Some (lock, cores) \<Rightarrow>
                                      Inr (params @ [''--path-lock '' @ lock,
                                                     ''--path-cores '' @ cores]))))))
      of
        Inl e \<Rightarrow> Inl e
      | Inr params \<Rightarrow>
          (case gpu_work of
             None \<Rightarrow> Inr params
           | Some gw \<Rightarrow>
               if \<not> truthy gw then Inr params
               else
                 (case param_for gw (category task) of
                    Inl e \<Rightarrow> Inl e
                  | Inr g \<Rightarrow> Inr (params @ [''--gpu-work '' @ str_int g]))))"

text \<open>Lines 153-157.\<close>

definition set_task :: "bench_env \<Rightarrow> string list \<Rightarrow> Task \<Rightarrow> Task" where
  "set_task env params task =
     task\<lparr>runtime := 0, files := [],
          program := joinpath (this_dir env) ''wfbench.py'',
          args := t_name task # params\<rparr>"

text \<open>The loop of lines 130-157.\<close>

definition set_parameters ::
  "bench_env \<Rightarrow> string param \<Rightarrow> int param option \<Rightarrow> int param option \<Rightarrow> string option \<Rightarrow>
   (string \<times> string) option \<Rightarrow> Task list \<Rightarrow> error + Task list" where
  "set_parameters env percent_cpu cpu_work gpu_work lock_files_folder locks ts =
     for_tasks
       (\<lambda>task. case task_params percent_cpu cpu_work gpu_work lock_files_folder locks task of
                  Inl e \<Rightarrow> Inl e
                | Inr params \<Rightarrow> Inr (set_task env params task))
       ts"

subsection \<open>Sizes of the output files\<close>

type_synonym sizes = "(string \<times> (string \<times> int) list) list"

text \<open>\<open>d.setdefault(k1, {})\<close> followed by \<open>d[k1][k2] = v\<close>\<close>

definition put2 :: "sizes \<Rightarrow> string \<Rightarrow> string \<Rightarrow> int \<Rightarrow> sizes" where
  "put2 d k1 k2 v =
     AList.update k1 (AList.update k2 v (case map_of d k1 of None \<Rightarrow> [] | Some inner \<Rightarrow> inner)) d"

text \<open>\<open>_output_files\<close>, lines 206-228: the body of its loop for one task, and the loop.\<close>

definition output_files_task :: "Workflow \<Rightarrow> (string \<rightharpoonup> int) \<Rightarrow> Task \<Rightarrow> sizes \<Rightarrow> error + sizes" where
  "output_files_task w data task output_files =
     (case getitem (tasks_children w) (t_name task) of
        Inl e \<Rightarrow> Inl e
      | Inr children \<Rightarrow>
          if children = [] then
            (case getitem data (category task) of
               Inl e \<Rightarrow> Inl e
             | Inr v \<Rightarrow> Inr (put2 output_files (t_name task) (t_name task) v))
          else
            for_each
              (\<lambda>child_name out.
                 case tasks_getitem w child_name of
                   Inl e \<Rightarrow> Inl e
                 | Inr child \<Rightarrow>
                     (case getitem data (category child) of
                        Inl e \<Rightarrow> Inl e
                      | Inr v \<Rightarrow> Inr (put2 out (t_name task) (t_name child) v)))
              children (setdefault output_files (t_name task) []))"

definition output_files :: "Workflow \<Rightarrow> (string \<rightharpoonup> int) \<Rightarrow> error + sizes" where
  "output_files w data = for_each (output_files_task w data) (tasks w) []"

text \<open>\<open>_calculate_input_files\<close>, lines 230-247\<close>

definition calculate_input_files :: "Workflow \<Rightarrow> error + int \<times> int" where
  "calculate_input_files w =
     (case for_each
             (\<lambda>task (tasks_need_input, tasks_dont_need_input).
                case getitem (tasks_parents w) (t_name task) of
                  Inl e \<Rightarrow> Inl e
                | Inr parents \<Rightarrow>
                    if parents = [] then Inr (tasks_need_input + 1, tasks_dont_need_input)
                    else Inr (tasks_need_input, tasks_dont_need_input + 1))
             (tasks w) (0, 0)
      of
        Inl e \<Rightarrow> Inl e
      | Inr (tasks_need_input, tasks_dont_need_input) \<Rightarrow>
          Inr (tasks_need_input, tasks_need_input * 2 + tasks_dont_need_input))"

subsection \<open>Injecting the File records\<close>

datatype out_spec = OutInt int | OutDict sizes

text \<open>\<open>_add_output_files\<close>, lines 249-263: the body of its loop for one task.\<close>

definition add_output_files :: "out_spec \<Rightarrow> Task \<Rightarrow> error + Task" where
  "add_output_files spec task =
     (case spec of
        OutDict d \<Rightarrow>
          (case agetitem d (t_name task) of
             Inl e \<Rightarrow> Inl e
           | Inr children \<Rightarrow>
               Inr (task\<lparr>files := files task @
                      map (\<lambda>(child, file_size).
                             \<lparr>f_name = t_name task @ ''_'' @ child @ ''_output.txt'',
                              f_size = file_size, f_link = OUTPUT\<rparr>)
                          children\<rparr>))
      | OutInt n \<Rightarrow>
          Inr (task\<lparr>files := files task @
                 [\<lparr>f_name = t_name task @ ''_output.txt'', f_size = n, f_link = OUTPUT\<rparr>]\<rparr>))"

text \<open>\<open>_add_input_files\<close>, lines 274-278: the dict \<open>input_files\<close>.\<close>

definition input_files_of :: "sizes \<Rightarrow> sizes" where
  "input_files_of outs =
     fold (\<lambda>(parent, children) acc.
             fold (\<lambda>(child, file_size) acc'. put2 acc' child parent file_size) children acc)
          outs []"

text \<open>\<open>_add_input_files\<close>, lines 280-302: the body of its loop for one task.\<close>

definition add_input_files :: "Workflow \<Rightarrow> sizes \<Rightarrow> data_arg \<Rightarrow> Task \<Rightarrow> error + Task" where
  "add_input_files w input_files data task =
     (case getitem (tasks_parents w) (t_name task) of
        Inl e \<Rightarrow> Inl e
      | Inr parents \<Rightarrow>
          if parents = [] then
            (case (case data of DDict d \<Rightarrow> getitem d (category task) | DInt n \<Rightarrow> Inr n) of
               Inl e \<Rightarrow> Inl e
             | Inr sz \<Rightarrow>
                 Inr (task\<lparr>files := files task @
                        [\<lparr>f_name = t_name task @ ''_input.txt'', f_size = sz, f_link = INPUT\<rparr>],
                      args := args task @ [t_name task @ ''_input.txt'']\<rparr>))
          else
            (case data of
               DDict d \<Rightarrow>
                 (case agetitem input_files (t_name task) of
                    Inl e \<Rightarrow> Inl e
                  | Inr ps \<Rightarrow>
                      Inr (task\<lparr>files := files task @
                             map (\<lambda>(parent, file_size).
                                    \<lparr>f_name = parent @ ''_'' @ t_name task @ ''_output.txt'',
                                     f_size = file_size, f_link = INPUT\<rparr>)
                                 ps,
                           args := args task @
                             map (\<lambda>(parent, file_size).
                                    parent @ ''_'' @ t_name task @ ''_output.txt'')
                                 ps\<rparr>))
             | DInt n \<Rightarrow>
                 Inr (task\<lparr>files := files task @
                        map (\<lambda>parent. \<lparr>f_name = parent @ ''_output.txt'', f_size = n,
                                        f_link = INPUT\<rparr>)
                            parents,
                      args := args task @ map (\<lambda>parent. parent @ ''_output.txt'') parents\<rparr>)))"

text \<open>
  \<open>_generate_data_for_root_nodes\<close>, lines 304-321. The state is the list of the files
  written, each with the number of random bytes in it; \<open>os.urandom\<close> refuses a negative
  length.
\<close>

definition generate_data_for_root_nodes ::
  "bench_env \<Rightarrow> Workflow \<Rightarrow> string \<Rightarrow> data_arg \<Rightarrow> error + (string \<times> int) list" where
  "generate_data_for_root_nodes env w save_dir data =
     for_each
       (\<lambda>task written.
          case getitem (tasks_parents w) (t_name task) of
            Inl e \<Rightarrow> Inl e
          | Inr parents \<Rightarrow>
              if parents \<noteq> [] then Inr written
              else
                (case (case data of DDict d \<Rightarrow> getitem d (category task) | DInt n \<Rightarrow> Inr n) of
                   Inl e \<Rightarrow> Inl e
                 | Inr file_size \<Rightarrow>
                     (let file = joinpath save_dir (t_name task @ ''_input.txt'')
                      in if is_file env file \<or> file \<in> fst ` set written then Inr written
                         else if file_size < 0 then Inl ValueError
                         else Inr (written @ [(file, file_size)]))))
       (tasks w) []"

subsection \<open>\<open>round(data * 1000000 / num_total_files)\<close>\<close>

text \<open>
  \<open>a / b\<close> on two Python ints is the IEEE double nearest to the exact quotient, ties to
  the even significand: 53 significant bits, an exponent of at least \<open>-1022\<close> (below it
  the spacing stays \<open>2^-1074\<close>), and an \<open>OverflowError\<close> from \<open>2^1024\<close> on. \<open>round\<close> of a
  float is the nearest integer, ties to the even one. A double is kept as a pair
  \<open>(m, e)\<close> of integers that stands for \<open>m * 2^e\<close>, so the model computes exactly.
\<close>

type_synonym double = "int \<times> int"

text \<open>The integer nearest to \<open>n / d\<close> for \<open>d > 0\<close>, ties to the even one.\<close>

definition round_half_even :: "int \<Rightarrow> int \<Rightarrow> int" where
  "round_half_even n d =
     (let f = n div d; r = n mod d
      in if 2 * r < d then f else if d < 2 * r then f + 1 else if even f then f else f + 1)"

text \<open>The number of binary digits of a natural number.\<close>

fun bit_length :: "nat \<Rightarrow> nat" where
  "bit_length n = (if n = 0 then 0 else Suc (bit_length (n div 2)))"

declare bit_length.simps [simp del]

text \<open>The \<open>e\<close> with \<open>2^e \<le> a / b < 2^(e+1)\<close>, for positive \<open>a\<close> and \<open>b\<close>.\<close>

definition binexp :: "int \<Rightarrow> int \<Rightarrow> int" where
  "binexp a b =
     (let e0 = int (bit_length (nat a)) - int (bit_length (nat b))
      in if a * 2 ^ nat (- e0) < b * 2 ^ nat e0 then e0 - 1 else e0)"

text \<open>The double nearest to \<open>a / b\<close> for \<open>b > 0\<close>; \<open>e\<close> is the exponent of its last bit.\<close>

definition to_double :: "int \<Rightarrow> int \<Rightarrow> double" where
  "to_double a b =
     (if a = 0 then (0, 0)
      else
        (let e = max (binexp \<bar>a\<bar> b) (- 1022) - 52
         in (round_half_even (a * 2 ^ nat (- e)) (b * 2 ^ nat e), e)))"

definition truediv :: "int \<Rightarrow> int \<Rightarrow> error + double" where
  "truediv a b =
     (if b = 0 then Inl ZeroDivisionError
      else
        (let (m, e) = (if b < 0 then to_double (- a) (- b) else to_double a b)
         in if 2 ^ 1024 * 2 ^ nat (- e) \<le> \<bar>m\<bar> * 2 ^ nat e then Inl OverflowError
            else Inr (m, e)))"

definition py_round :: "double \<Rightarrow> int" where
  "py_round x = (case x of (m, e) \<Rightarrow> round_half_even (m * 2 ^ nat e) (2 ^ nat (- e)))"

subsection \<open>The two data modes and \<open>create_benchmark\<close>\<close>

text \<open>The dict \<open>outputs_file_size\<close> of lines 163-165.\<close>

definition outputs_file_size :: "string \<Rightarrow> (string \<times> int) list \<Rightarrow> (string \<times> int) list" where
  "outputs_file_size n children =
     fold (\<lambda>(child, data_size). AList.update (n @ ''_'' @ child @ ''_output.txt'') data_size)
          children []"

text \<open>
  Lines 160-172, \<open>data\<close> a dict. \<open>w\<close> is the workflow after the loop of lines 130-157; the
  result is its tasks and the root input files written.
\<close>

definition data_per_category ::
  "bench_env \<Rightarrow> Workflow \<Rightarrow> string \<Rightarrow> (string \<rightharpoonup> int) \<Rightarrow> error + Task list \<times> (string \<times> int) list" where
  "data_per_category env w save_dir data =
     (case output_files w data of
        Inl e \<Rightarrow> Inl e
      | Inr outputs \<Rightarrow>
     (case for_tasks
             (\<lambda>task. case agetitem outputs (t_name task) of
                        Inl e \<Rightarrow> Inl e
                      | Inr children \<Rightarrow>
                          Inr (task\<lparr>args := args task @
                                 [''--out '' @ repr_dict (outputs_file_size (t_name task) children)]\<rparr>))
             (tasks w) of
        Inl e \<Rightarrow> Inl e
      | Inr ts1 \<Rightarrow>
     (case for_tasks (add_output_files (OutDict outputs)) ts1 of
        Inl e \<Rightarrow> Inl e
      | Inr ts2 \<Rightarrow>
     (case for_tasks (add_input_files w (input_files_of outputs) (DDict data)) ts2 of
        Inl e \<Rightarrow> Inl e
      | Inr ts3 \<Rightarrow>
     (case generate_data_for_root_nodes env w save_dir (DDict data) of
        Inl e \<Rightarrow> Inl e
      | Inr written \<Rightarrow> Inr (ts3, written))))))"

text \<open>
  The loop of lines 185-192. The local variable \<open>outputs\<close> is assigned anew for every
  task, so after the loop it holds what the last task gave it; it is unbound (\<open>None\<close>) when
  the loop ran for no task.
\<close>

definition footprint_loop :: "Workflow \<Rightarrow> int \<Rightarrow> error + Task list \<times> sizes option" where
  "footprint_loop w file_size =
     for_each
       (\<lambda>task (done, outputs).
          case getitem (tasks_children w) (t_name task) of
            Inl e \<Rightarrow> Inl e
          | Inr children \<Rightarrow>
              Inr (done @
                     [task\<lparr>args := args task @
                        [''--out '' @ repr_dict [(t_name task @ ''_output.txt'', file_size)]]\<rparr>],
                   Some (if children = [] then []
                         else fold (\<lambda>child out. put2 out (t_name task) child file_size)
                                children (setdefault [] (t_name task) []))))
       (tasks w) ([], None)"

text \<open>Lines 175-197, \<open>data\<close> an int.\<close>

definition data_footprint ::
  "bench_env \<Rightarrow> Workflow \<Rightarrow> string \<Rightarrow> int \<Rightarrow> error + Task list \<times> (string \<times> int) list" where
  "data_footprint env w save_dir data =
     (case calculate_input_files w of
        Inl e \<Rightarrow> Inl e
      | Inr (num_sys_files, num_total_files) \<Rightarrow>
     (case truediv (data * 1000000) num_total_files of
        Inl e \<Rightarrow> Inl e
      | Inr x \<Rightarrow>
     (let file_size = py_round x in
     (case footprint_loop w file_size of
        Inl e \<Rightarrow> Inl e
      | Inr (ts1, outputs) \<Rightarrow>
     (case for_tasks (add_output_files (OutInt file_size)) ts1 of
        Inl e \<Rightarrow> Inl e
      | Inr ts2 \<Rightarrow>
     (case outputs of
        None \<Rightarrow> Inl (UnboundLocalError ''outputs'')
      | Some outs \<Rightarrow>
     (case for_tasks (add_input_files w (input_files_of outs) (DInt file_size)) ts2 of
        Inl e \<Rightarrow> Inl e
      | Inr ts3 \<Rightarrow>
     (case generate_data_for_root_nodes env w save_dir (DInt file_size) of
        Inl e \<Rightarrow> Inl e
      | Inr written \<Rightarrow> Inr (ts3, written)))))))))"

text \<open>
  What a call of \<open>create_benchmark\<close> that returns leaves behind: the path it returns, the
  workflow it hands to \<open>write_json\<close>, the root input files it wrote, and whether it
  logged the lock-file warning.
\<close>

record outcome =
  returned :: string
  written_json :: Workflow
  sys_files :: "(string \<times> int) list"
  warned :: bool

text \<open>
  \<open>create_benchmark\<close> from line 115 on. \<open>w\<close> is \<open>self.workflow\<close> as the generator built it
  (lines 106-111) and \<open>json_path\<close> the path of lines 112-113.
\<close>

definition create_benchmark ::
  "bench_env \<Rightarrow> Workflow \<Rightarrow> string \<Rightarrow> string \<Rightarrow> string param \<Rightarrow> int param option \<Rightarrow>
   int param option \<Rightarrow> data_arg option \<Rightarrow> string option \<Rightarrow> error + outcome" where
  "create_benchmark env w json_path save_dir percent_cpu cpu_work gpu_work data lock_files_folder =
     (let (locks, warning) = create_lock_files env lock_files_folder in
      case set_parameters env percent_cpu cpu_work gpu_work lock_files_folder locks (tasks w) of
        Inl e \<Rightarrow> Inl e
      | Inr ts \<Rightarrow>
          (case (case data of
                   None \<Rightarrow> Inr (ts, [])
                 | Some (DDict d) \<Rightarrow> data_per_category env (w\<lparr>tasks := ts\<rparr>) save_dir d
                 | Some (DInt n) \<Rightarrow> data_footprint env (w\<lparr>tasks := ts\<rparr>) save_dir n)
           of
             Inl e \<Rightarrow> Inl e
           | Inr (ts', written) \<Rightarrow>
               Inr \<lparr>returned = json_path, written_json = w\<lparr>tasks := ts'\<rparr>,
                    sys_files = written, warned = warning\<rparr>))"

section \<open>The local executor: \<open>WorkflowBenchmark.run\<close>\<close>

text \<open>
  \<open>run\<close> reads the tasks back from the JSON that \<open>write_json\<close> produced: a task record
  holds \<open>name\<close>, \<open>command.program\<close>, \<open>command.arguments\<close> and \<open>files\<close>, and a file record
  \<open>name\<close>, \<open>size\<close> and \<open>link\<close>; \<open>link == "input"\<close> is \<open>f_link = INPUT\<close> here.
\<close>

text \<open>\<open>assigning_correct_files\<close>, lines 434-439\<close>

definition assigning_correct_files :: "Task \<Rightarrow> string list" where
  "assigning_correct_files task = map f_name (filter (\<lambda>file. f_link file = INPUT) (files task))"

text \<open>Lines 386-394: the command line of a task.\<close>

definition command_line :: "Task \<Rightarrow> string list" where
  "command_line task =
     (if ''--out'' \<in> set (args task)
      then [''time'', ''python'', program task] @ args task @ assigning_correct_files task
      else [''time'', ''python'', program task] @ args task)"

text \<open>\<open>glob.glob("*input*.txt")\<close> and \<open>glob.glob("*output.txt")\<close> on a file name: \<open>*\<close> matches
  any text, but no leading dot.\<close>

definition ends_with :: "string \<Rightarrow> string \<Rightarrow> bool" where
  "ends_with s suf = (length suf \<le> length s \<and> drop (length s - length suf) s = suf)"

fun occurs :: "string \<Rightarrow> string \<Rightarrow> bool" where
  "occurs p [] = (p = [])"
| "occurs p (c # cs) = (take (length p) (c # cs) = p \<or> occurs p cs)"

definition glob_input :: "string \<Rightarrow> bool" where
  "glob_input n =
     (take 1 n \<noteq> ''.'' \<and> ends_with n ''.txt'' \<and> occurs ''input'' (take (length n - 4) n))"

definition glob_output :: "string \<Rightarrow> bool" where
  "glob_output n = (take 1 n \<noteq> ''.'' \<and> ends_with n ''output.txt'')"

text \<open>
  \<open>cleanup_sys_files\<close>, lines 442-448, on the names of the files in the current
  directory: \<open>os.remove\<close> of a name that is gone raises, and the loop stops there. The
  result is the exception, if any, and the names left.
\<close>

fun remove_all :: "string list \<Rightarrow> string list \<Rightarrow> error option \<times> string list" where
  "remove_all [] names = (None, names)"
| "remove_all (t # ts) names =
     (if t \<in> set names then remove_all ts (removeAll t names)
      else (Some FileNotFoundError, names))"

definition cleanup_sys_files :: "string list \<Rightarrow> error option \<times> string list" where
  "cleanup_sys_files names =
     (let input_files = filter glob_input names;
          output_files = filter glob_output names;
          all_files = input_files @ output_files
      in remove_all all_files names)"

text \<open>
  What a run meets outside its arguments. \<open>run_dir\<close> is \<open>this_dir\<close>, the directory of
  \<open>bench.py\<close>; \<open>start_dir\<close> the current directory when \<open>run\<close> is called; \<open>json_ok\<close> says
  whether the JSON is read and \<open>run.txt\<close> opened; \<open>path_exists k p\<close> whether \<open>p\<close> exists at
  the \<open>k\<close>-th visit of a task by the scan; \<open>uuid4 k\<close> the name drawn there; \<open>spawn_ok\<close>
  whether \<open>subprocess.Popen\<close> starts a command line (it raises when the executable is
  missing); \<open>listing d\<close> the names of the files in directory \<open>d\<close> when the run reaches its
  cleanup.
\<close>

record run_env =
  run_dir :: string
  start_dir :: string
  json_ok :: bool
  path_exists :: "nat \<Rightarrow> string \<Rightarrow> bool"
  uuid4 :: "nat \<Rightarrow> string"
  spawn_ok :: "string list \<Rightarrow> bool"
  listing :: "string \<Rightarrow> string list"

text \<open>
  The state of the coordinator: the set \<open>has_executed\<close>, the list \<open>procs\<close> (a process is
  given by the name of its task and its command line), the current directory, and the
  number of task visits so far.
\<close>

record run_state =
  has_executed :: "string set"
  procs :: "(string \<times> string list) list"
  cwd :: string
  visits :: nat

text \<open>
  Lines 375-401: the body of the \<open>for\<close> loop for one task. When \<open>Popen\<close> raises, the
  statement \<open>os.chdir("../..")\<close> after it is not reached.
\<close>

definition run_task :: "run_env \<Rightarrow> Task \<Rightarrow> run_state \<Rightarrow> error option \<times> run_state" where
  "run_task env task s0 =
     (let s = s0\<lparr>visits := visits s0 + 1\<rparr> in
      if t_name task \<in> has_executed s then (None, s)
      else
        (let ready_to_execute =
               list_all (\<lambda>input_file. path_exists env (visits s0) (joinpath (run_dir env) (f_name input_file)))
                 (filter (\<lambda>input_file. f_link input_file = INPUT) (files task))
         in if \<not> ready_to_execute then (None, s)
            else
              (let s1 = s\<lparr>has_executed := insert (t_name task) (has_executed s)\<rparr>;
                   program = command_line task;
                   folder = joinpath (run_dir env) (''wfbench_execution/'' @ uuid4 env (visits s0));
                   s2 = s1\<lparr>cwd := folder\<rparr>
               in if \<not> spawn_ok env program then (Some FileNotFoundError, s2)
                  else (None, s2\<lparr>procs := procs s2 @ [(t_name task, program)],
                                 cwd := run_dir env\<rparr>))))"

text \<open>Lines 374-401: one pass of the \<open>for\<close> loop over all tasks.\<close>

fun scan :: "run_env \<Rightarrow> Task list \<Rightarrow> run_state \<Rightarrow> error option \<times> run_state" where
  "scan env [] s = (None, s)"
| "scan env (task # ts) s =
     (case run_task env task s of
        (Some e, s') \<Rightarrow> (Some e, s')
      | (None, s') \<Rightarrow> scan env ts s')"

text \<open>
  Lines 373-403: the \<open>while\<close> loop, which may run forever. \<open>poll n\<close> runs at most \<open>n\<close> passes
  (each followed by \<open>time.sleep(1)\<close>) and says how it stopped: the loop was left, an
  exception was raised, or it was still polling.
\<close>

datatype stop = Left | Raised error | Polling

fun poll :: "nat \<Rightarrow> run_env \<Rightarrow> Task list \<Rightarrow> run_state \<Rightarrow> stop \<times> run_state" where
  "poll n env ts s =
     (if \<not> card (has_executed s) < length ts then (Left, s)
      else
        (case n of
           0 \<Rightarrow> (Polling, s)
         | Suc m \<Rightarrow>
             (case scan env ts s of
                (Some e, s') \<Rightarrow> (Raised e, s')
              | (None, s') \<Rightarrow> poll m env ts s')))"

declare poll.simps [simp del]

text \<open>
  The end of a run: how it ended, the processes started for tasks (the list \<open>procs\<close>;
  the \<open>killall\<close> of the handler is not among them) and those waited for, and the names
  of the files in each directory afterwards.
\<close>

datatype ending = Returns | Raises error | Still_polling

record run_result =
  ended :: ending
  started :: "(string \<times> string list) list"
  waited :: "(string \<times> string list) list"
  files_after :: "string \<Rightarrow> string list"

text \<open>Lines 408-413: the exception handler, entered in directory \<open>dir\<close> holding \<open>names\<close>.\<close>

definition handler ::
  "run_env \<Rightarrow> (string \<times> string list) list \<Rightarrow> (string \<times> string list) list \<Rightarrow> string \<Rightarrow>
   string list \<Rightarrow> run_result" where
  "handler env ps ws dir names =
     (if \<not> spawn_ok env [''killall'', ''stress-ng'']
      then \<lparr>ended = Raises FileNotFoundError, started = ps, waited = ws,
            files_after = (listing env)(dir := names)\<rparr>
      else
        (case cleanup_sys_files names of
           (_, left) \<Rightarrow>
             \<lparr>ended = Raises FileNotFoundError, started = ps, waited = ws,
              files_after = (listing env)(dir := left)\<rparr>))"

text \<open>\<open>run\<close>, lines 358-413, with at most \<open>n\<close> passes of the poll loop.\<close>

definition run :: "nat \<Rightarrow> run_env \<Rightarrow> Task list \<Rightarrow> run_result" where
  "run n env ts =
     (if \<not> json_ok env then handler env [] [] (start_dir env) (listing env (start_dir env))
      else
        (case poll n env ts \<lparr>has_executed = {}, procs = [], cwd = start_dir env, visits = 0\<rparr> of
           (Polling, s) \<Rightarrow>
             \<lparr>ended = Still_polling, started = procs s, waited = [], files_after = listing env\<rparr>
         | (Raised e, s) \<Rightarrow> handler env (procs s) [] (cwd s) (listing env (cwd s))
         | (Left, s) \<Rightarrow>
             (case cleanup_sys_files (listing env (cwd s)) of
                (Some e, left) \<Rightarrow> handler env (procs s) (procs s) (cwd s) left
              | (None, left) \<Rightarrow>
                  \<lparr>ended = Returns, started = procs s, waited = procs s,
                   files_after = (listing env)(cwd s := left)\<rparr>)))"

section \<open>The recipe-driven builder: \<open>WorkflowRecipe\<close> (generator/workflow/abstract_recipe.py)\<close>




text \<open>
  A recipe for files is a dict from extension to the parameters of a distribution;
  \<open>files_recipe\<close> is an optional dict from link to a dict from extension to a number of
  files. The random draws are given from outside: the \<open>k\<close>-th draw yields the text
  \<open>uuid k\<close> of \<open>uuid.uuid4()\<close> and the value \<open>rvs k d\<close> of \<open>int(generate_rvs(...))\<close> for
  the distribution \<open>d\<close>.
\<close>

type_synonym dist = "string \<times> rat \<times> rat"

record draws =
  uuid :: "nat \<Rightarrow> string"
  rvs :: "nat \<Rightarrow> dist \<Rightarrow> int"


text \<open>\<open>_generate_file\<close>, lines 174-191, at draw \<open>k\<close>; \<open>d\<close> is \<open>recipe[extension]\<close>.\<close>

definition generate_one_file :: "draws \<Rightarrow> nat \<Rightarrow> string \<Rightarrow> dist \<Rightarrow> FileLink \<Rightarrow> File" where
  "generate_one_file env k extension d link =
     \<lparr>f_name = uuid env k @ extension, f_size = rvs env k d, f_link = link\<rparr>"








section \<open>Notions used in the statements, and example inputs\<close>

text \<open>The tasks of the workflow that a call handed to \<open>write_json\<close> (none when it raised).\<close>

definition assembled :: "error + outcome \<Rightarrow> Task list" where
  "assembled res = (case res of Inl e \<Rightarrow> [] | Inr r \<Rightarrow> tasks (written_json r))"

text \<open>A task without what the builder gave it besides its name and category.\<close>

definition scrub :: "Task \<Rightarrow> Task" where
  "scrub t = t\<lparr>runtime := 0, files := [], program := [], args := []\<rparr>"

text \<open>\<open>t'\<close> is \<open>t\<close> with File records and arguments appended, and nothing else changed.\<close>

definition extends :: "Task \<Rightarrow> Task \<Rightarrow> bool" where
  "extends t t' \<longleftrightarrow>
     t_name t' = t_name t \<and> category t' = category t \<and> runtime t' = runtime t \<and>
     program t' = program t \<and> (\<exists>fs. files t' = files t @ fs) \<and> (\<exists>as. args t' = args t @ as)"


text \<open>
  A task as a builder leaves it: a sampled runtime of 5 seconds and one File record.
  The workflow \<open>ex_chain\<close> is the graph A \<rightarrow> B.
\<close>

definition builder_file :: File where
  "builder_file = \<lparr>f_name = ''3f2a.fits'', f_size = 7, f_link = INPUT\<rparr>"

definition ex_task :: "string \<Rightarrow> string \<Rightarrow> Task" where
  "ex_task n c =
     \<lparr>t_name = n, category = c, runtime = 5, files = [builder_file], program = [], args = []\<rparr>"

definition ex_chain :: Workflow where
  "ex_chain =
     \<lparr>wf_name = ''Chain-Benchmark'',
      tasks = [ex_task ''A'' ''mount'', ex_task ''B'' ''filter''],
      tasks_parents = [''A'' \<mapsto> [], ''B'' \<mapsto> [''A'']],
      tasks_children = [''A'' \<mapsto> [''B''], ''B'' \<mapsto> []]\<rparr>"

definition ex_env :: bench_env where
  "ex_env = \<lparr>this_dir = ''/opt/wfbench'', mkdir_ok = True, open_ok = True, is_file = (\<lambda>p. False)\<rparr>"

text \<open>
  Every process was started for a task of the list, with that task's command line; a
  task has at most one process; a task with a process is in \<open>has_executed\<close>.
\<close>

definition run_inv :: "Task list \<Rightarrow> run_state \<Rightarrow> bool" where
  "run_inv ts s \<longleftrightarrow>
     distinct (map fst (procs s)) \<and> fst ` set (procs s) \<subseteq> has_executed s \<and>
     has_executed s \<subseteq> t_name ` set ts \<and>
     list_all (\<lambda>(n, cmd). \<exists>task \<in> set ts. t_name task = n \<and> cmd = command_line task) (procs s)"

definition run_start :: "run_env \<Rightarrow> run_state" where
  "run_start env = \<lparr>has_executed = {}, procs = [], cwd = start_dir env, visits = 0\<rparr>"

text \<open>
  The persisted graph of the chain A \<rightarrow> B as the assembler writes it for a footprint
  of 1 MB, and a task whose recorded arguments have \<open>--out\<close> as an argument of its own.
\<close>

definition ex_json_chain :: "Task list" where
  "ex_json_chain =
     assembled (create_benchmark ex_env ex_chain ''chain-benchmark-2.json'' ''/opt/wfbench''
        (Scalar ''0.6'') None None (Some (DInt 1)) None)"

definition ex_out_task :: Task where
  "ex_out_task =
     \<lparr>t_name = ''A'', category = ''mount'', runtime = 0,
      files = [\<lparr>f_name = ''A_output.txt'', f_size = 5, f_link = OUTPUT\<rparr>,
               \<lparr>f_name = ''A_input.txt'', f_size = 5, f_link = INPUT\<rparr>],
      program = ''/opt/wfbench/wfbench.py'', args = [''A'', ''--out'', ''A_output.txt:5'']\<rparr>"

text \<open>
  A run in which the root input exists from the start and the output of A from the third
  task visit on; and the same run on a machine without the \<open>time\<close> executable, at whose
  failure only the root input exists.
\<close>

definition ex_run_env :: run_env where
  "ex_run_env =
     \<lparr>run_dir = ''/opt/wfbench'', start_dir = ''/opt/wfbench'', json_ok = True,
      path_exists = (\<lambda>k p. p = ''/opt/wfbench/A_input.txt'' \<or>
                            (2 \<le> k \<and> p = ''/opt/wfbench/A_output.txt'')),
      uuid4 = (\<lambda>k. ''run'' @ str_nat k),
      spawn_ok = (\<lambda>cmd. True),
      listing = (\<lambda>d. if d = ''/opt/wfbench''
                      then [''A_input.txt'', ''A_output.txt'', ''B_output.txt'', ''wfbench.py'']
                      else [])\<rparr>"

definition ex_fail_env :: run_env where
  "ex_fail_env =
     ex_run_env\<lparr>spawn_ok := (\<lambda>cmd. take 1 cmd \<noteq> [''time'']),
                listing := (\<lambda>d. if d = ''/opt/wfbench'' then [''A_input.txt'', ''wfbench.py'']
                                else [])\<rparr>"







definition synthesized :: "draws \<Rightarrow> FileLink \<Rightarrow> nat \<Rightarrow> (string \<times> dist) list \<Rightarrow> File list" where
  "synthesized env link k plan =
     map (\<lambda>(i, e, d). generate_one_file env i e d link) (zip [k..<k + length plan] plan)"





text \<open>
  The output files of a task; the File record of the edge from \<open>parent\<close> to \<open>child\<close>; the
  byte size that the data mapping has for the category of the task named \<open>child_name\<close>;
  and what the claim says of the entry \<open>inner\<close> of \<open>outputs\<close> for a task: for a task without
  children it is the one entry of the task itself, with the size of its own category;
  otherwise it has one entry for each child, with the size of the child's category.
\<close>

definition outputs_of :: "Task \<Rightarrow> File list" where
  "outputs_of t = filter (\<lambda>f. f_link f = OUTPUT) (files t)"

definition edge_file :: "string \<Rightarrow> string \<times> int \<Rightarrow> File" where
  "edge_file parent = (\<lambda>(child, v).
     \<lparr>f_name = parent @ ''_'' @ child @ ''_output.txt'', f_size = v, f_link = OUTPUT\<rparr>)"

definition edge_size :: "Workflow \<Rightarrow> (string \<rightharpoonup> int) \<Rightarrow> string \<Rightarrow> int option" where
  "edge_size w data child_name =
     (case tasks_getitem w child_name of Inl e \<Rightarrow> None | Inr child \<Rightarrow> data (category child))"

definition sized_by_children ::
  "Workflow \<Rightarrow> (string \<rightharpoonup> int) \<Rightarrow> Task \<Rightarrow> (string \<times> int) list \<Rightarrow> bool" where
  "sized_by_children w data t inner \<longleftrightarrow>
     (\<exists>cs. tasks_children w (t_name t) = Some cs \<and>
        (if cs = [] then \<exists>v. data (category t) = Some v \<and> inner = [(t_name t, v)]
         else distinct (map fst inner) \<and> fst ` set inner = set cs \<and>
              (\<forall>c \<in> set cs. \<exists>v. edge_size w data c = Some v \<and> map_of inner c = Some v)))"

text \<open>The graph in which A has the children B and C, and sizes for the three categories.\<close>

definition ex_fork :: Workflow where
  "ex_fork =
     \<lparr>wf_name = ''Fork-Benchmark'',
      tasks = [ex_task ''A'' ''mount'', ex_task ''B'' ''filter'', ex_task ''C'' ''join''],
      tasks_parents = [''A'' \<mapsto> [], ''B'' \<mapsto> [''A''], ''C'' \<mapsto> [''A'']],
      tasks_children = [''A'' \<mapsto> [''B'', ''C''], ''B'' \<mapsto> [], ''C'' \<mapsto> []]\<rparr>"

definition ex_sizes :: "string \<rightharpoonup> int" where
  "ex_sizes = [''mount'' \<mapsto> 10, ''filter'' \<mapsto> 20, ''join'' \<mapsto> 30]"

lemmas ex_defs =
  ex_chain_def ex_task_def ex_env_def builder_file_def assembled_def

lemmas bench_defs =
  create_benchmark_def create_lock_files_def set_parameters_def task_params_def set_task_def
  data_per_category_def data_footprint_def output_files_def output_files_task_def
  calculate_input_files_def footprint_loop_def add_output_files_def add_input_files_def
  input_files_of_def generate_data_for_root_nodes_def getitem_def agetitem_def put2_def
  setdefault_def tasks_getitem_def joinpath_def outputs_file_size_def

section \<open>Loops over the tasks\<close>

lemma for_tasks_Inr_iff:
  "for_tasks body ts = Inr ts' \<longleftrightarrow> list_all2 (\<lambda>t t'. body t = Inr t') ts ts'"
proof (induction ts arbitrary: ts')
  case Nil
  show ?case by auto
next
  case (Cons t ts)
  show ?case
  proof (cases "body t")
    case (Inl e)
    then show ?thesis by (auto simp: list_all2_Cons1)
  next
    case (Inr u)
    show ?thesis
    proof (cases "for_tasks body ts")
      case (Inl e)
      with Inr Cons.IH show ?thesis by (auto simp: list_all2_Cons1)
    next
      case r: (Inr us)
      with Inr Cons.IH [of us] Cons.IH show ?thesis
        by (auto simp: list_all2_Cons1)
    qed
  qed
qed

lemma for_tasks_map: "for_tasks body (map f ts) = for_tasks (\<lambda>t. body (f t)) ts"
  by (induction ts) (auto split: sum.splits)

lemma for_each_append:
  "for_each body (xs @ ys) s =
     (case for_each body xs s of Inl e \<Rightarrow> Inl e | Inr s' \<Rightarrow> for_each body ys s')"
  by (induction xs arbitrary: s) (auto split: sum.splits)

lemma extends_trans: "extends a b \<Longrightarrow> extends b c \<Longrightarrow> extends a c"
  by (auto simp: extends_def)

lemma list_all2_extends_trans:
  "list_all2 extends xs ys \<Longrightarrow> list_all2 extends ys zs \<Longrightarrow> list_all2 extends xs zs"
  by (rule list_all2_trans [of extends extends extends]) (auto intro: extends_trans)

lemma for_tasks_extends:
  assumes "\<And>t t'. body t = Inr t' \<Longrightarrow> extends t t'" and "for_tasks body ts = Inr ts'"
  shows "list_all2 extends ts ts'"
  using assms(2) unfolding for_tasks_Inr_iff
  by (rule list_all2_mono) (rule assms(1))

section \<open>The parameter loop does not read what it overwrites\<close>

lemma task_params_scrub:
  "task_params pc cw gw lf locks (scrub t) = task_params pc cw gw lf locks t"
  by (simp add: task_params_def scrub_def cong: sum.case_cong option.case_cong if_cong)

lemma set_task_scrub: "set_task env ps (scrub t) = set_task env ps t"
  by (simp add: set_task_def scrub_def)

lemma set_parameters_scrub:
  "set_parameters env pc cw gw lf locks (map scrub ts) = set_parameters env pc cw gw lf locks ts"
  by (simp add: set_parameters_def for_tasks_map task_params_scrub set_task_scrub
      cong: sum.case_cong)

lemma create_benchmark_scrub:
  "create_benchmark env (w\<lparr>tasks := map scrub (tasks w)\<rparr>) jp sd pc cw gw data lf =
   create_benchmark env w jp sd pc cw gw data lf"
  by (simp add: create_benchmark_def set_parameters_scrub split: prod.splits
      cong: sum.case_cong option.case_cong data_arg.case_cong)

lemma set_parameters_Inr:
  "set_parameters env pc cw gw lf locks ts = Inr ts' \<longleftrightarrow>
   list_all2 (\<lambda>t t'. \<exists>ps. task_params pc cw gw lf locks t = Inr ps \<and> t' = set_task env ps t) ts ts'"
  unfolding set_parameters_def for_tasks_Inr_iff
  by (rule arg_cong [where f = "\<lambda>P. list_all2 P ts ts'"]) (auto split: sum.splits intro!: ext)

section \<open>After the parameter loop, tasks are only extended\<close>

lemma add_output_files_extends: "add_output_files spec t = Inr t' \<Longrightarrow> extends t t'"
  by (auto simp: add_output_files_def extends_def split: out_spec.splits sum.splits)

lemma add_input_files_extends: "add_input_files w inp data t = Inr t' \<Longrightarrow> extends t t'"
  by (auto simp: add_input_files_def extends_def split: data_arg.splits sum.splits if_splits)

lemma footprint_loop_aux:
  "for_each
       (\<lambda>task (done, outputs).
          case getitem (tasks_children w) (t_name task) of
            Inl e \<Rightarrow> Inl e
          | Inr children \<Rightarrow>
              Inr (done @ [g task], h task children))
       ts (done0, o0) = Inr (done1, o1) \<Longrightarrow> done1 = done0 @ map g ts"
proof (induction ts arbitrary: done0 o0)
  case Nil
  then show ?case by simp
next
  case (Cons a ts)
  from Cons.prems obtain cs where
    "for_each
       (\<lambda>task (done, outputs).
          case getitem (tasks_children w) (t_name task) of
            Inl e \<Rightarrow> Inl e
          | Inr children \<Rightarrow>
              Inr (done @ [g task], h task children))
       ts (done0 @ [g a], h a cs) = Inr (done1, o1)"
    by (auto split: sum.splits)
  from Cons.IH [OF this] show ?case by simp
qed

lemma footprint_loop_tasks:
  "footprint_loop w file_size = Inr (ts1, outs) \<Longrightarrow>
   ts1 = map (\<lambda>task. task\<lparr>args := args task @
                        [''--out '' @ repr_dict [(t_name task @ ''_output.txt'', file_size)]]\<rparr>) (tasks w)"
  unfolding footprint_loop_def by (drule footprint_loop_aux) simp

lemma data_footprint_extends:
  assumes "data_footprint env w sd n = Inr (ts', written)"
  shows "list_all2 extends (tasks w) ts'"
proof -
  from assms obtain fs ts1 outs ts2 where
    l: "footprint_loop w fs = Inr (ts1, Some outs)" and
    o: "for_tasks (add_output_files (OutInt fs)) ts1 = Inr ts2" and
    i: "for_tasks (add_input_files w (input_files_of outs) (DInt fs)) ts2 = Inr ts'"
    by (auto simp: data_footprint_def Let_def split: sum.splits prod.splits option.splits)
  have "list_all2 extends (tasks w) ts1"
    unfolding footprint_loop_tasks [OF l] by (simp add: list_all2_map2 extends_def list_all2_same)
  moreover have "list_all2 extends ts1 ts2"
    using o by (rule for_tasks_extends [rotated]) (rule add_output_files_extends)
  moreover have "list_all2 extends ts2 ts'"
    using i by (rule for_tasks_extends [rotated]) (rule add_input_files_extends)
  ultimately show ?thesis by (blast intro: list_all2_extends_trans)
qed

lemma data_per_category_extends:
  assumes "data_per_category env w sd d = Inr (ts', written)"
  shows "list_all2 extends (tasks w) ts'"
proof -
  from assms obtain outputs ts1 ts2 where
    l: "for_tasks
             (\<lambda>task. case agetitem outputs (t_name task) of
                        Inl e \<Rightarrow> Inl e
                      | Inr children \<Rightarrow>
                          Inr (task\<lparr>args := args task @
                                 [''--out '' @ repr_dict (outputs_file_size (t_name task) children)]\<rparr>))
             (tasks w) = Inr ts1" and
    o: "for_tasks (add_output_files (OutDict outputs)) ts1 = Inr ts2" and
    i: "for_tasks (add_input_files w (input_files_of outputs) (DDict d)) ts2 = Inr ts'"
    by (auto simp: data_per_category_def split: sum.splits)
  have "list_all2 extends (tasks w) ts1"
    using l by (rule for_tasks_extends [rotated]) (auto simp: extends_def split: sum.splits)
  moreover have "list_all2 extends ts1 ts2"
    using o by (rule for_tasks_extends [rotated]) (rule add_output_files_extends)
  moreover have "list_all2 extends ts2 ts'"
    using i by (rule for_tasks_extends [rotated]) (rule add_input_files_extends)
  ultimately show ?thesis by (blast intro: list_all2_extends_trans)
qed

text \<open>What \<open>create_benchmark\<close> returns, in terms of the parameter loop.\<close>

lemma create_benchmark_Inr:
  assumes "create_benchmark env w jp sd pc cw gw data lf = Inr r"
  shows "\<exists>ts. set_parameters env pc cw gw lf (fst (create_lock_files env lf)) (tasks w) = Inr ts \<and>
              list_all2 extends ts (tasks (written_json r)) \<and> returned r = jp \<and>
              warned r = snd (create_lock_files env lf) \<and>
              (data = None \<longrightarrow> tasks (written_json r) = ts \<and> sys_files r = [])"
proof -
  obtain locks warning where lw: "create_lock_files env lf = (locks, warning)"
    by (cases "create_lock_files env lf")
  from assms lw obtain ts where
    sp: "set_parameters env pc cw gw lf locks (tasks w) = Inr ts"
    by (auto simp: create_benchmark_def split: sum.splits)
  show ?thesis
  proof (cases data)
    case None
    with assms lw sp show ?thesis
      by (auto simp: create_benchmark_def list_all2_same extends_def)
  next
    case (Some da)
    show ?thesis
    proof (cases da)
      case (DInt n)
      with Some assms lw sp obtain ts' written where
        df: "data_footprint env (w\<lparr>tasks := ts\<rparr>) sd n = Inr (ts', written)" and
        r: "r = \<lparr>returned = jp, written_json = w\<lparr>tasks := ts'\<rparr>, sys_files = written,
                 warned = warning\<rparr>"
        by (auto simp: create_benchmark_def split: sum.splits)
      from data_footprint_extends [OF df] sp r lw Some show ?thesis by simp
    next
      case (DDict d)
      with Some assms lw sp obtain ts' written where
        df: "data_per_category env (w\<lparr>tasks := ts\<rparr>) sd d = Inr (ts', written)" and
        r: "r = \<lparr>returned = jp, written_json = w\<lparr>tasks := ts'\<rparr>, sys_files = written,
                 warned = warning\<rparr>"
        by (auto simp: create_benchmark_def split: sum.splits)
      from data_per_category_extends [OF df] sp r lw Some show ?thesis by simp
    qed
  qed
qed

section \<open>Claims about the assembler's frame and failure behaviour\<close>

lemmas round_defs =
  truediv_def to_double_def binexp_def bit_length.simps round_half_even_def py_round_def Let_def

text \<open>
  C6, as stated: the assembler leaves the builder-sampled runtime and the File records
  that the builder attached unchanged. It does not: for the chain A \<rightarrow> B assembled
  with a footprint of 1 MB, both runtimes of 5 become 0 and the builder's File record
  is in no manifest.
\<close>

theorem C6_builder_state_is_overwritten:
  "map runtime (tasks ex_chain) = [5, 5] \<and>
   map runtime
     (assembled (create_benchmark ex_env ex_chain ''chain-benchmark-2.json'' ''/data''
        (Scalar ''0.6'') None None (Some (DInt 1)) None)) = [0, 0] \<and>
   map files (tasks ex_chain) = [[builder_file], [builder_file]] \<and>
   builder_file \<notin>
     set (concat (map files
       (assembled (create_benchmark ex_env ex_chain ''chain-benchmark-2.json'' ''/data''
          (Scalar ''0.6'') None None (Some (DInt 1)) None))))"
  by (simp add: ex_defs bench_defs round_defs)

text \<open>
  C6, amended: the assembler keeps the name and the category of every task and the
  order of the tasks, and overwrites the rest: the runtime becomes 0, the program the
  path of wfbench.py, and the argument list starts anew with the task's name; the file
  manifest is emptied before the assembler's own File records are appended. So the
  result is the same for a workflow whose tasks carry no runtime, File records, program
  or arguments from the builder.
\<close>

theorem C6_assembler_overwrites:
  "create_benchmark env (w\<lparr>tasks := map scrub (tasks w)\<rparr>) jp sd pc cw gw data lf =
     create_benchmark env w jp sd pc cw gw data lf \<and>
   (\<forall>r. create_benchmark env w jp sd pc cw gw data lf = Inr r \<longrightarrow>
      list_all2
        (\<lambda>t t'. t_name t' = t_name t \<and> category t' = category t \<and> runtime t' = 0 \<and>
                 program t' = joinpath (this_dir env) ''wfbench.py'' \<and>
                 (\<exists>rest. args t' = t_name t # rest))
        (tasks w) (tasks (written_json r)))"
proof (intro conjI allI impI)
  show "create_benchmark env (w\<lparr>tasks := map scrub (tasks w)\<rparr>) jp sd pc cw gw data lf =
     create_benchmark env w jp sd pc cw gw data lf"
    by (rule create_benchmark_scrub)
next
  fix r
  assume "create_benchmark env w jp sd pc cw gw data lf = Inr r"
  from create_benchmark_Inr [OF this] obtain ts where
    sp: "set_parameters env pc cw gw lf (fst (create_lock_files env lf)) (tasks w) = Inr ts" and
    ex: "list_all2 extends ts (tasks (written_json r))"
    by blast
  from sp have st: "list_all2 (\<lambda>t t'. \<exists>ps. t' = set_task env ps t) (tasks w) ts"
    unfolding set_parameters_Inr by (rule list_all2_mono) blast
  show "list_all2
        (\<lambda>t t'. t_name t' = t_name t \<and> category t' = category t \<and> runtime t' = 0 \<and>
                 program t' = joinpath (this_dir env) ''wfbench.py'' \<and>
                 (\<exists>rest. args t' = t_name t # rest))
        (tasks w) (tasks (written_json r))"
    by (rule list_all2_trans [OF _ st ex]) (auto simp: extends_def set_task_def)
qed

theorem C6_assembler_overwrites_witness:
  "(\<exists>r. create_benchmark ex_env ex_chain ''chain-benchmark-2.json'' ''/data''
          (Scalar ''0.6'') (Some (Scalar 100)) None (Some (DInt 1)) None = Inr r) \<and>
   list_all2
     (\<lambda>t t'. t_name t' = t_name t \<and> category t' = category t \<and> runtime t' = 0 \<and>
              program t' = joinpath (this_dir ex_env) ''wfbench.py'' \<and>
              (\<exists>rest. args t' = t_name t # rest))
     (tasks ex_chain)
     (assembled (create_benchmark ex_env ex_chain ''chain-benchmark-2.json'' ''/data''
          (Scalar ''0.6'') (Some (Scalar 100)) None (Some (DInt 1)) None))"
proof -
  have e: "\<exists>r. create_benchmark ex_env ex_chain ''chain-benchmark-2.json'' ''/data''
          (Scalar ''0.6'') (Some (Scalar 100)) None (Some (DInt 1)) None = Inr r"
    by (simp add: ex_defs bench_defs round_defs)
  then obtain r where r: "create_benchmark ex_env ex_chain ''chain-benchmark-2.json'' ''/data''
          (Scalar ''0.6'') (Some (Scalar 100)) None (Some (DInt 1)) None = Inr r" ..
  from C6_assembler_overwrites [of ex_env ex_chain "''chain-benchmark-2.json''" "''/data''"
      "Scalar ''0.6''" "Some (Scalar 100)" None "Some (DInt 1)" None] r e
  show ?thesis by (simp add: assembled_def)
qed

text \<open>
  C8: when \<open>lock_files_folder.mkdir\<close> fails, the warning is logged and the run is meant to
  go on. With \<open>cpu_work\<close> set it does not: the variables \<open>lock\<close> and \<open>cores\<close> were never
  assigned, and line 143 raises for the first task.
\<close>

theorem C8_mkdir_failure_with_cpu_work_raises:
  "create_benchmark (ex_env\<lparr>mkdir_ok := False\<rparr>) ex_chain ''chain-benchmark-2.json'' ''/data''
     (Scalar ''0.6'') (Some (Scalar 100)) None None (Some ''/locks'') =
   Inl (UnboundLocalError ''lock'')"
  by (simp add: ex_defs bench_defs)

text \<open>
  C1: in per-category mode a task without children gets the entry
  \<open>outputs[name][name]\<close>, which \<open>_add_input_files\<close> reads as an edge from the task to
  itself. For the chain A \<rightarrow> B the task B declares the input B_B_output.txt, which is
  its own output and no output of its parent A.
\<close>

theorem C1_leaf_declares_its_own_output_as_input:
  "map (\<lambda>t. (t_name t, assigning_correct_files t,
             map f_name (filter (\<lambda>f. f_link f = OUTPUT) (files t))))
     (assembled (create_benchmark ex_env ex_chain ''chain-benchmark-2.json'' ''/data''
        (Scalar ''0.6'') None None
        (Some (DDict [''mount'' \<mapsto> 10, ''filter'' \<mapsto> 20])) None)) =
   [(''A'', [''A_input.txt''], [''A_B_output.txt'']),
    (''B'', [''A_B_output.txt'', ''B_B_output.txt''], [''B_B_output.txt''])]"
  by (simp add: ex_defs bench_defs assigning_correct_files_def)



lemma task_params_defaults: "task_params pc None None lf locks t = Inr []"
  by (simp add: task_params_def)











section \<open>The executor: what holds of the coordinator's state\<close>

lemma run_task_inv:
  assumes "run_inv ts s" and "task \<in> set ts" and "run_task env task s = (r, s')"
  shows "run_inv ts s'"
proof -
  from assms(1) have d: "distinct (map fst (procs s))"
    and p: "fst ` set (procs s) \<subseteq> has_executed s"
    and h: "has_executed s \<subseteq> t_name ` set ts"
    and c: "list_all (\<lambda>(n, cmd). \<exists>task \<in> set ts. t_name task = n \<and> cmd = command_line task) (procs s)"
    by (simp_all add: run_inv_def)
  consider
    (skip) "procs s' = procs s" "has_executed s' = has_executed s"
  | (spawn) "t_name task \<notin> has_executed s"
      "procs s' = procs s @ [(t_name task, command_line task)]"
      "has_executed s' = insert (t_name task) (has_executed s)"
  | (fail) "procs s' = procs s" "has_executed s' = insert (t_name task) (has_executed s)"
    using assms(3) by (auto simp: run_task_def Let_def split: if_splits)
  then show ?thesis
  proof cases
    case skip
    with d p h c show ?thesis by (simp add: run_inv_def)
  next
    case spawn
    from spawn(1) p have "t_name task \<notin> fst ` set (procs s)" by blast
    with d have "distinct (map fst (procs s'))" by (simp add: spawn(2))
    moreover from p have "fst ` set (procs s') \<subseteq> has_executed s'"
      by (auto simp: spawn(2,3))
    moreover from h assms(2) have "has_executed s' \<subseteq> t_name ` set ts"
      by (auto simp: spawn(3))
    moreover from c assms(2)
    have "list_all (\<lambda>(n, cmd). \<exists>task \<in> set ts. t_name task = n \<and> cmd = command_line task) (procs s')"
      by (auto simp: spawn(2))
    ultimately show ?thesis by (simp add: run_inv_def)
  next
    case fail
    from p have "fst ` set (procs s') \<subseteq> has_executed s'" by (auto simp: fail)
    moreover from h assms(2) have "has_executed s' \<subseteq> t_name ` set ts" by (auto simp: fail)
    ultimately show ?thesis using d c by (simp add: run_inv_def fail(1))
  qed
qed

lemma run_task_launched:
  assumes "has_executed s = fst ` set (procs s)" and "run_task env task s = (None, s')"
  shows "has_executed s' = fst ` set (procs s')"
proof -
  consider
    (skip) "s' = s\<lparr>visits := visits s + 1\<rparr>"
  | (spawn) "s' = s\<lparr>visits := visits s + 1,
                     has_executed := insert (t_name task) (has_executed s),
                     procs := procs s @ [(t_name task, command_line task)],
                     cwd := run_dir env\<rparr>"
    using assms(2) by (auto simp: run_task_def Let_def split: if_splits)
  then show ?thesis
  proof cases
    case skip
    with assms(1) show ?thesis by simp
  next
    case spawn
    have "has_executed s' = insert (t_name task) (has_executed s)"
      by (simp add: spawn)
    moreover have "fst ` set (procs s') = insert (t_name task) (fst ` set (procs s))"
      by (simp add: spawn)
    ultimately show ?thesis using assms(1) by simp
  qed
qed

lemma scan_inv:
  assumes "run_inv ts s" and "set us \<subseteq> set ts" and "scan env us s = (r, s')"
  shows "run_inv ts s'"
  using assms
proof (induction us arbitrary: s)
  case Nil
  then show ?case by simp
next
  case (Cons u us)
  obtain r1 s1 where 1: "run_task env u s = (r1, s1)" by (cases "run_task env u s")
  from Cons.prems 1 have i: "run_inv ts s1" by (auto intro: run_task_inv)
  show ?case
  proof (cases r1)
    case None
    with Cons.prems 1 have "scan env us s1 = (r, s')" by simp
    with Cons.IH i Cons.prems(2) show ?thesis by simp
  next
    case (Some e)
    with Cons.prems 1 i show ?thesis by simp
  qed
qed

lemma scan_launched:
  assumes "has_executed s = fst ` set (procs s)" and "scan env us s = (None, s')"
  shows "has_executed s' = fst ` set (procs s')"
  using assms
proof (induction us arbitrary: s)
  case Nil
  then show ?case by simp
next
  case (Cons u us)
  obtain r1 s1 where 1: "run_task env u s = (r1, s1)" by (cases "run_task env u s")
  with Cons.prems have r1: "r1 = None" and 2: "scan env us s1 = (None, s')"
    by (auto split: option.splits)
  from Cons.IH [OF run_task_launched [OF Cons.prems(1) 1 [unfolded r1]] 2] show ?case .
qed

lemma poll_inv:
  assumes "run_inv ts s" and "poll n env ts s = (st, s')"
  shows "run_inv ts s'"
  using assms
proof (induction n arbitrary: s)
  case 0
  then show ?case by (auto simp: poll.simps [of 0] split: if_splits)
next
  case (Suc n)
  show ?case
  proof (cases "card (has_executed s) < length ts")
    case False
    with Suc.prems show ?thesis by (simp add: poll.simps [of "Suc n"])
  next
    case True
    obtain r1 s1 where 1: "scan env ts s = (r1, s1)" by (cases "scan env ts s")
    from scan_inv [OF Suc.prems(1) subset_refl 1] have i: "run_inv ts s1" .
    show ?thesis
    proof (cases r1)
      case None
      with True 1 Suc.prems(2) have "poll n env ts s1 = (st, s')"
        by (simp add: poll.simps [of "Suc n"])
      with Suc.IH i show ?thesis by simp
    next
      case (Some e)
      with True 1 Suc.prems(2) i show ?thesis by (simp add: poll.simps [of "Suc n"])
    qed
  qed
qed

text \<open>How the loop stops decides whether the guard \<open>len(has_executed) < len(tasks)\<close> holds.\<close>

lemma poll_stop:
  assumes "has_executed s = fst ` set (procs s)" and "poll n env ts s = (st, s')"
  shows "(st = Left \<longrightarrow> \<not> card (has_executed s') < length ts \<and> has_executed s' = fst ` set (procs s')) \<and>
         (st = Polling \<longrightarrow> card (has_executed s') < length ts \<and> has_executed s' = fst ` set (procs s'))"
  using assms
proof (induction n arbitrary: s)
  case 0
  then show ?case by (auto simp: poll.simps [of 0] split: if_splits)
next
  case (Suc n)
  show ?case
  proof (cases "card (has_executed s) < length ts")
    case False
    with Suc.prems show ?thesis by (simp add: poll.simps [of "Suc n"])
  next
    case True
    obtain r1 s1 where 1: "scan env ts s = (r1, s1)" by (cases "scan env ts s")
    show ?thesis
    proof (cases r1)
      case None
      with True 1 Suc.prems(2) have p: "poll n env ts s1 = (st, s')"
        by (simp add: poll.simps [of "Suc n"])
      from Suc.IH [OF scan_launched [OF Suc.prems(1) 1 [unfolded None]] p] show ?thesis .
    next
      case (Some e)
      with True 1 Suc.prems(2) show ?thesis by (auto simp: poll.simps [of "Suc n"])
    qed
  qed
qed

lemma run_inv_start: "run_inv ts (run_start env)"
  by (simp add: run_inv_def run_start_def)

lemma run_started:
  "started (run n env ts) =
     (if json_ok env then procs (snd (poll n env ts (run_start env))) else [])"
  by (auto simp: run_def run_start_def handler_def split: prod.splits stop.splits option.splits)

lemma run_waited:
  "json_ok env \<Longrightarrow>
   waited (run n env ts) =
     (if fst (poll n env ts (run_start env)) = Left
      then procs (snd (poll n env ts (run_start env))) else [])"
  by (auto simp: run_def run_start_def handler_def split: prod.splits stop.splits option.splits)

lemmas run_defs =
  run_def poll.simps run_task_def command_line_def assigning_correct_files_def handler_def
  cleanup_sys_files_def glob_input_def glob_output_def ends_with_def joinpath_def
  ex_run_env_def ex_fail_env_def ex_out_task_def

lemma ex_json_chain_tasks:
  "map (\<lambda>t. (t_name t, program t, ''--out'' \<in> set (args t), map (take 6) (args t),
             map (\<lambda>f. (f_name f, f_link f)) (files t))) ex_json_chain =
   [(''A'', ''/opt/wfbench/wfbench.py'', False, [''A'', ''--out '', ''A_inpu''],
     [(''A_output.txt'', OUTPUT), (''A_input.txt'', INPUT)]),
    (''B'', ''/opt/wfbench/wfbench.py'', False, [''B'', ''--out '', ''A_outp''],
     [(''B_output.txt'', OUTPUT), (''A_output.txt'', INPUT)])]"
  by (simp add: ex_json_chain_def ex_defs bench_defs round_defs repr_dict_def)

lemma ex_run_started:
  "map fst (started (run 3 ex_run_env ex_json_chain)) = [''A'', ''B''] \<and>
   ended (run 3 ex_run_env ex_json_chain) = Returns \<and>
   waited (run 3 ex_run_env ex_json_chain) = started (run 3 ex_run_env ex_json_chain) \<and>
   map snd (started (run 3 ex_run_env ex_json_chain)) =
     map (\<lambda>t. [''time'', ''python'', program t] @ args t) ex_json_chain \<and>
   files_after (run 3 ex_run_env ex_json_chain) ''/opt/wfbench'' = [''wfbench.py'']"
  by (simp add: run_defs numeral_3_eq_3 ex_json_chain_def ex_defs bench_defs round_defs repr_dict_def)

section \<open>Claims about the executor\<close>

text \<open>
  C5: in every run a task is spawned at most once (the processes started so far belong
  to pairwise different tasks, however many passes the poll loop has made); the poll
  loop is left exactly when every task has been launched (if it was left, every task has
  a process; if it is still polling, some task has none); and when the loop was left the
  executor waits for all the processes it started, and for none before.
\<close>

theorem C5_each_task_spawned_once:
  assumes "distinct (map t_name ts)"
    and "poll n env ts (run_start env) = (st, s)"
  shows "distinct (map fst (procs s)) \<and>
         (st = Left \<longrightarrow> fst ` set (procs s) = t_name ` set ts) \<and>
         (st = Polling \<longrightarrow> fst ` set (procs s) \<subset> t_name ` set ts) \<and>
         (json_ok env \<longrightarrow>
            started (run n env ts) = procs s \<and>
            waited (run n env ts) = (if st = Left then procs s else []))"
proof -
  from poll_inv [OF run_inv_start assms(2)] have i: "run_inv ts s" .
  then have d: "distinct (map fst (procs s))" and sub: "has_executed s \<subseteq> t_name ` set ts"
    by (simp_all add: run_inv_def)
  have "has_executed (run_start env) = fst ` set (procs (run_start env))"
    by (simp add: run_start_def)
  note ps = poll_stop [OF this assms(2)]
  have l: "st = Left \<Longrightarrow> \<not> card (has_executed s) < length ts \<and> has_executed s = fst ` set (procs s)"
    and p: "st = Polling \<Longrightarrow> card (has_executed s) < length ts \<and> has_executed s = fst ` set (procs s)"
    using ps by blast+
  from assms(1) have c: "card (t_name ` set ts) = length ts"
    by (metis distinct_card length_map set_map)
  have "fst ` set (procs s) = t_name ` set ts" if "st = Left"
  proof -
    from l [OF that] have a: "\<not> card (has_executed s) < length ts"
      and b: "has_executed s = fst ` set (procs s)" by blast+
    from a c have "card (t_name ` set ts) \<le> card (has_executed s)" by linarith
    with sub have "has_executed s = t_name ` set ts"
      by (metis card_seteq finite_imageI finite_set)
    with b show ?thesis by simp
  qed
  moreover have "fst ` set (procs s) \<subset> t_name ` set ts" if "st = Polling"
  proof -
    from p [OF that] have a: "card (has_executed s) < length ts"
      and b: "has_executed s = fst ` set (procs s)" by blast+
    from a c have "card (has_executed s) < card (t_name ` set ts)" by linarith
    then have "has_executed s \<noteq> t_name ` set ts" by auto
    with sub have "has_executed s \<subset> t_name ` set ts" by blast
    with b show ?thesis by simp
  qed
  moreover have "started (run n env ts) = procs s \<and>
            waited (run n env ts) = (if st = Left then procs s else [])" if "json_ok env"
    using that assms(2) by (simp add: run_started run_waited)
  ultimately show ?thesis using d by blast
qed

theorem C5_each_task_spawned_once_witness:
  "distinct (map t_name ex_json_chain) \<and>
   fst (poll 3 ex_run_env ex_json_chain (run_start ex_run_env)) = Left \<and>
   map fst (started (run 3 ex_run_env ex_json_chain)) = [''A'', ''B''] \<and>
   distinct (map fst (procs (snd (poll 3 ex_run_env ex_json_chain (run_start ex_run_env))))) \<and>
   fst ` set (procs (snd (poll 3 ex_run_env ex_json_chain (run_start ex_run_env)))) =
     t_name ` set ex_json_chain \<and>
   waited (run 3 ex_run_env ex_json_chain) = started (run 3 ex_run_env ex_json_chain)"
proof -
  have d: "distinct (map t_name ex_json_chain)"
    using ex_json_chain_tasks [THEN arg_cong, of "map fst"] by (simp add: comp_def)
  obtain st s where p: "poll 3 ex_run_env ex_json_chain (run_start ex_run_env) = (st, s)"
    by (cases "poll 3 ex_run_env ex_json_chain (run_start ex_run_env)")
  have j: "json_ok ex_run_env" by (simp add: ex_run_env_def)
  from ex_run_started have w: "waited (run 3 ex_run_env ex_json_chain) \<noteq> []"
    and m: "map fst (started (run 3 ex_run_env ex_json_chain)) = [''A'', ''B'']"
    by auto
  from C5_each_task_spawned_once [OF d p] j w have "st = Left" by (auto split: if_splits)
  with C5_each_task_spawned_once [OF d p] d p m j show ?thesis by simp
qed

text \<open>
  C4, as stated: a task whose recorded arguments contain an output-size map is started
  with the resolved absolute paths of its input files after the recorded arguments. It
  is not. The assembler records the map inside one argument, \<open>--out {...}\<close>, which the test
  \<open>"--out" in arguments\<close> does not find: the tasks of the chain are started with their
  recorded arguments and nothing after them (the names of input files that these end
  with are the ones that lines 288-302 recorded as arguments). And a task that has
  \<open>--out\<close> as an argument of its own is given the names of its input files as recorded,
  not their paths.
\<close>

theorem C4_no_resolved_paths_appended:
  "list_all (\<lambda>t. list_ex (\<lambda>a. take 6 a = ''--out '') (args t)) ex_json_chain \<and>
   map snd (started (run 3 ex_run_env ex_json_chain)) =
     map (\<lambda>t. [''time'', ''python'', program t] @ args t) ex_json_chain \<and>
   map snd (started (run 3 ex_run_env ex_json_chain)) \<noteq>
     map (\<lambda>t. [''time'', ''python'', program t] @ args t @
               map (joinpath (run_dir ex_run_env)) (assigning_correct_files t)) ex_json_chain \<and>
   started (run 3 ex_run_env [ex_out_task]) =
     [(''A'', [''time'', ''python'', ''/opt/wfbench/wfbench.py'',
               ''A'', ''--out'', ''A_output.txt:5'', ''A_input.txt''])] \<and>
   map (joinpath (run_dir ex_run_env)) (assigning_correct_files ex_out_task) =
     [''/opt/wfbench/A_input.txt'']"
proof -
  from ex_json_chain_tasks [THEN arg_cong, of "map (\<lambda>x. fst (snd (snd (snd x))))"]
  have a: "map (\<lambda>t. map (take 6) (args t)) ex_json_chain =
      [[''A'', ''--out '', ''A_inpu''], [''B'', ''--out '', ''A_outp'']]"
    by (simp add: comp_def)
  obtain t1 t2 where c: "ex_json_chain = [t1, t2]"
    using ex_json_chain_tasks by (auto simp: map_eq_Cons_conv)
  from a have 1: "list_all (\<lambda>t. list_ex (\<lambda>a. take 6 a = ''--out '') (args t)) ex_json_chain"
    by (auto simp: c map_eq_Cons_conv)
  from ex_json_chain_tasks [THEN arg_cong, of "map (\<lambda>x. snd (snd (snd (snd x))))"]
  have f: "map (\<lambda>t. map (\<lambda>f. (f_name f, f_link f)) (files t)) ex_json_chain =
      [[(''A_output.txt'', OUTPUT), (''A_input.txt'', INPUT)],
       [(''B_output.txt'', OUTPUT), (''A_output.txt'', INPUT)]]"
    by (simp add: comp_def)
  then have "assigning_correct_files t1 \<noteq> []"
    by (auto simp: c assigning_correct_files_def map_eq_Cons_conv)
  then have 3: "map (\<lambda>t. [''time'', ''python'', program t] @ args t) ex_json_chain \<noteq>
     map (\<lambda>t. [''time'', ''python'', program t] @ args t @
               map (joinpath (run_dir ex_run_env)) (assigning_correct_files t)) ex_json_chain"
    by (simp add: c)
  have 4: "started (run 3 ex_run_env [ex_out_task]) =
     [(''A'', [''time'', ''python'', ''/opt/wfbench/wfbench.py'',
               ''A'', ''--out'', ''A_output.txt:5'', ''A_input.txt''])]"
    by (simp add: run_defs numeral_3_eq_3)
  have 5: "map (joinpath (run_dir ex_run_env)) (assigning_correct_files ex_out_task) =
     [''/opt/wfbench/A_input.txt'']"
    by (simp add: run_defs)
  from ex_run_started 1 3 4 5 show ?thesis by simp
qed

text \<open>
  C4, amended: every process that the poll loop of a run starts (every entry of \<open>procs\<close>)
  is started for a task of the graph, with the command line \<open>time python program\<close> and
  the recorded arguments of that task; when \<open>--out\<close> is one of the recorded arguments, the
  names of the task's declared input files follow, as recorded (not resolved to paths)
  and in the order of the manifest; otherwise nothing follows the recorded arguments.
\<close>

theorem C4_command_lines:
  assumes "(name, cmd) \<in> set (started (run n env ts))"
  shows "\<exists>task \<in> set ts. t_name task = name \<and>
           cmd = [''time'', ''python'', program task] @ args task @
                 (if ''--out'' \<in> set (args task)
                  then map f_name (filter (\<lambda>file. f_link file = INPUT) (files task))
                  else [])"
proof -
  obtain st s where p: "poll n env ts (run_start env) = (st, s)"
    by (cases "poll n env ts (run_start env)")
  from assms p have "(name, cmd) \<in> set (procs s)"
    by (auto simp: run_started split: if_splits)
  moreover from poll_inv [OF run_inv_start p]
  have "list_all (\<lambda>(n, cmd). \<exists>task \<in> set ts. t_name task = n \<and> cmd = command_line task) (procs s)"
    by (simp add: run_inv_def)
  ultimately obtain task where "task \<in> set ts" "t_name task = name" "cmd = command_line task"
    by (auto simp: list_all_iff)
  then show ?thesis
    by (auto simp: command_line_def assigning_correct_files_def)
qed

theorem C4_command_lines_witness:
  "(''A'', [''time'', ''python'', ''/opt/wfbench/wfbench.py'',
           ''A'', ''--out'', ''A_output.txt:5'', ''A_input.txt''])
     \<in> set (started (run 3 ex_run_env [ex_out_task])) \<and>
   (\<exists>task \<in> set [ex_out_task]. t_name task = ''A'' \<and>
      [''time'', ''python'', ''/opt/wfbench/wfbench.py'',
       ''A'', ''--out'', ''A_output.txt:5'', ''A_input.txt''] =
      [''time'', ''python'', program task] @ args task @
        (if ''--out'' \<in> set (args task)
         then map f_name (filter (\<lambda>file. f_link file = INPUT) (files task))
         else []))"
proof -
  have m: "(''A'', [''time'', ''python'', ''/opt/wfbench/wfbench.py'',
           ''A'', ''--out'', ''A_output.txt:5'', ''A_input.txt''])
     \<in> set (started (run 3 ex_run_env [ex_out_task]))"
    by (simp add: run_defs numeral_3_eq_3)
  from C4_command_lines [OF m] m show ?thesis by blast
qed

text \<open>
  C7: the handler calls \<open>cleanup_sys_files\<close>, which globs in the current directory. When
  \<open>Popen\<close> raises (here: no \<open>time\<close> executable), \<open>os.chdir("../..")\<close> has not run, the current
  directory is the scratch folder of the task, and the generated files in the working
  directory stay: after the failed run the root input A_input.txt, which matches
  \<open>*input*.txt\<close>, is still there.
\<close>

theorem C7_failed_spawn_leaves_generated_files:
  "ended (run 3 ex_fail_env ex_json_chain) = Raises FileNotFoundError \<and>
   files_after (run 3 ex_fail_env ex_json_chain) (run_dir ex_fail_env) =
     [''A_input.txt'', ''wfbench.py''] \<and>
   glob_input ''A_input.txt''"
  by (simp add: run_defs numeral_3_eq_3 ex_json_chain_def ex_defs bench_defs round_defs
      repr_dict_def str_nat.simps digit_char_def)

section \<open>The recipe builder: which files a job is given\<close>



lemma synthesized_replicate:
  "synthesized env link k (replicate n (e, d)) =
     map (\<lambda>i. generate_one_file env i e d link) [k..<k + n]"
  by (auto simp: synthesized_def list_eq_iff_nth_eq)







section \<open>Claims about the recipe builder\<close>



section \<open>Per-category mode: the dict of output sizes\<close>

lemma map_of_put2:
  "map_of (put2 out k1 k2 v) =
     (map_of out)(k1 \<mapsto> AList.update k2 v (case map_of out k1 of None \<Rightarrow> [] | Some inner \<Rightarrow> inner))"
  by (simp add: put2_def update_conv')

lemma tasks_getitem_name: "tasks_getitem w c = Inr child \<Longrightarrow> t_name child = c"
  by (auto simp: tasks_getitem_def find_Some_iff split: option.splits)

lemma children_loop:
  assumes "for_each
              (\<lambda>child_name out.
                 case tasks_getitem w child_name of
                   Inl e \<Rightarrow> Inl e
                 | Inr child \<Rightarrow>
                     (case getitem d (category child) of
                        Inl e \<Rightarrow> Inl e
                      | Inr v \<Rightarrow> Inr (put2 out n (t_name child) v)))
              cs out = Inr out'"
      and "map_of out n = Some inner0" and "distinct (map fst inner0)"
  shows "\<exists>inner. map_of out' n = Some inner \<and> distinct (map fst inner) \<and>
           fst ` set inner = fst ` set inner0 \<union> set cs \<and>
           (\<forall>c \<in> set cs. \<exists>v. edge_size w d c = Some v \<and> map_of inner c = Some v) \<and>
           (\<forall>c. c \<notin> set cs \<longrightarrow> map_of inner c = map_of inner0 c) \<and>
           (\<forall>k. k \<noteq> n \<longrightarrow> map_of out' k = map_of out k)"
  using assms
proof (induction cs arbitrary: out inner0)
  case Nil
  then show ?case by simp
next
  case (Cons c cs)
  from Cons.prems(1) obtain child v where
    g: "tasks_getitem w c = Inr child" and v: "d (category child) = Some v" and
    r: "for_each
              (\<lambda>child_name out.
                 case tasks_getitem w child_name of
                   Inl e \<Rightarrow> Inl e
                 | Inr child \<Rightarrow>
                     (case getitem d (category child) of
                        Inl e \<Rightarrow> Inl e
                      | Inr v \<Rightarrow> Inr (put2 out n (t_name child) v)))
              cs (put2 out n (t_name child) v) = Inr out'"
    by (auto simp: getitem_def split: sum.splits option.splits)
  have c: "t_name child = c" using g by (rule tasks_getitem_name)
  have e: "edge_size w d c = Some v" using g v by (simp add: edge_size_def)
  let ?inner1 = "AList.update c v inner0"
  have m1: "map_of (put2 out n c v) n = Some ?inner1"
    by (simp add: map_of_put2 Cons.prems(2))
  have d1: "distinct (map fst ?inner1)"
    using Cons.prems(3) by (rule distinct_update)
  from Cons.IH [OF r [unfolded c] m1 d1] obtain inner where
    i: "map_of out' n = Some inner" "distinct (map fst inner)"
       "fst ` set inner = fst ` set ?inner1 \<union> set cs"
       "\<forall>c \<in> set cs. \<exists>v. edge_size w d c = Some v \<and> map_of inner c = Some v"
       "\<forall>c'. c' \<notin> set cs \<longrightarrow> map_of inner c' = map_of ?inner1 c'"
       "\<forall>k. k \<noteq> n \<longrightarrow> map_of out' k = map_of (put2 out n c v) k"
    by blast
  have k: "fst ` set inner = fst ` set inner0 \<union> set (c # cs)"
    using i(3) by (auto simp: dom_update)
  have a: "\<exists>v. edge_size w d c = Some v \<and> map_of inner c = Some v"
  proof (cases "c \<in> set cs")
    case True
    with i(4) show ?thesis by blast
  next
    case False
    with i(5) have "map_of inner c = map_of ?inner1 c" by blast
    with e show ?thesis by (simp add: update_conv')
  qed
  have b: "\<forall>c'. c' \<notin> set (c # cs) \<longrightarrow> map_of inner c' = map_of inner0 c'"
    using i(5) by (simp add: update_conv')
  have o: "\<forall>k. k \<noteq> n \<longrightarrow> map_of out' k = map_of out k"
    using i(6) by (simp add: map_of_put2)
  from i(1,2) k a i(4) b o show ?case by auto
qed

lemma output_files_task_entry:
  assumes "output_files_task w d t out = Inr out'" and "map_of out (t_name t) = None"
  shows "(\<exists>inner. map_of out' (t_name t) = Some inner \<and> sized_by_children w d t inner) \<and>
         (\<forall>k. k \<noteq> t_name t \<longrightarrow> map_of out' k = map_of out k)"
proof -
  from assms(1) obtain cs where cs: "tasks_children w (t_name t) = Some cs"
    by (auto simp: output_files_task_def getitem_def split: option.splits)
  show ?thesis
  proof (cases "cs = []")
    case True
    with assms cs obtain v where v: "d (category t) = Some v"
      and o: "out' = put2 out (t_name t) (t_name t) v"
      by (auto simp: output_files_task_def getitem_def split: option.splits)
    have "map_of out' (t_name t) = Some [(t_name t, v)]"
      by (simp add: o map_of_put2 assms(2))
    moreover have "sized_by_children w d t [(t_name t, v)]"
      using cs True v by (simp add: sized_by_children_def)
    moreover have "\<forall>k. k \<noteq> t_name t \<longrightarrow> map_of out' k = map_of out k"
      by (simp add: o map_of_put2)
    ultimately show ?thesis by blast
  next
    case False
    let ?out0 = "setdefault out (t_name t) []"
    have m0: "map_of ?out0 (t_name t) = Some []" and
      k0: "\<forall>k. k \<noteq> t_name t \<longrightarrow> map_of ?out0 k = map_of out k"
      using assms(2) by (auto simp: setdefault_def map_add_def split: option.splits)
    from assms(1) cs False have
      "for_each
              (\<lambda>child_name out.
                 case tasks_getitem w child_name of
                   Inl e \<Rightarrow> Inl e
                 | Inr child \<Rightarrow>
                     (case getitem d (category child) of
                        Inl e \<Rightarrow> Inl e
                      | Inr v \<Rightarrow> Inr (put2 out (t_name t) (t_name child) v)))
              cs ?out0 = Inr out'"
      by (simp add: output_files_task_def getitem_def)
    from children_loop [OF this m0] obtain inner where
      i: "map_of out' (t_name t) = Some inner" "distinct (map fst inner)"
         "fst ` set inner = set cs"
         "\<forall>c \<in> set cs. \<exists>v. edge_size w d c = Some v \<and> map_of inner c = Some v"
         "\<forall>k. k \<noteq> t_name t \<longrightarrow> map_of out' k = map_of ?out0 k"
      by auto
    have "sized_by_children w d t inner"
      using cs False i(2,3,4) by (simp add: sized_by_children_def)
    with i(1,5) k0 show ?thesis by simp
  qed
qed

lemma output_files_entries:
  assumes "for_each (output_files_task w d) ts out = Inr out'"
      and "distinct (map t_name ts)" and "\<forall>t \<in> set ts. map_of out (t_name t) = None"
  shows "(\<forall>t \<in> set ts. \<exists>inner. map_of out' (t_name t) = Some inner \<and> sized_by_children w d t inner) \<and>
         (\<forall>k. k \<notin> t_name ` set ts \<longrightarrow> map_of out' k = map_of out k)"
  using assms
proof (induction ts arbitrary: out)
  case Nil
  then show ?case by simp
next
  case (Cons t ts)
  from Cons.prems(1) obtain out1 where
    1: "output_files_task w d t out = Inr out1" and
    r: "for_each (output_files_task w d) ts out1 = Inr out'"
    by (auto split: sum.splits)
  from Cons.prems(3) have n: "map_of out (t_name t) = None" by simp
  from output_files_task_entry [OF 1 n] obtain inner where
    i: "map_of out1 (t_name t) = Some inner" "sized_by_children w d t inner" and
    k: "\<forall>k. k \<noteq> t_name t \<longrightarrow> map_of out1 k = map_of out k"
    by blast
  from Cons.prems(2) have dt: "distinct (map t_name ts)" and nt: "t_name t \<notin> t_name ` set ts"
    by simp_all
  have "\<forall>u \<in> set ts. map_of out1 (t_name u) = None"
  proof
    fix u assume u: "u \<in> set ts"
    with nt have "t_name u \<noteq> t_name t" by (metis imageI)
    with k Cons.prems(3) u show "map_of out1 (t_name u) = None" by simp
  qed
  from Cons.IH [OF r dt this] have
    a: "\<forall>u \<in> set ts. \<exists>inner. map_of out' (t_name u) = Some inner \<and> sized_by_children w d u inner" and
    b: "\<forall>k. k \<notin> t_name ` set ts \<longrightarrow> map_of out' k = map_of out1 k"
    by blast+
  from b nt i have "\<exists>inner. map_of out' (t_name t) = Some inner \<and> sized_by_children w d t inner"
    by auto
  moreover from b k have "\<forall>k. k \<notin> t_name ` set (t # ts) \<longrightarrow> map_of out' k = map_of out k"
    by auto
  ultimately show ?case using a by simp
qed

lemma output_files_sized:
  assumes "output_files w d = Inr outputs" and "distinct (map t_name (tasks w))"
      and "t \<in> set (tasks w)"
  shows "\<exists>inner. agetitem outputs (t_name t) = Inr inner \<and> sized_by_children w d t inner"
  using output_files_entries [OF assms(1) [unfolded output_files_def] assms(2)] assms(3)
  by (auto simp: agetitem_def)

text \<open>The File records that the three loops of lines 162-171 leave in a task.\<close>

lemma for_tasks_compose:
  assumes "for_tasks b1 ts = Inr ts1" and "for_tasks b2 ts1 = Inr ts2"
  shows "list_all2 (\<lambda>t t2. \<exists>t1. b1 t = Inr t1 \<and> b2 t1 = Inr t2) ts ts2"
  using assms unfolding for_tasks_Inr_iff
  by (rule list_all2_trans [rotated]) blast

lemma add_input_files_outputs:
  "add_input_files w inp data t = Inr t' \<Longrightarrow> t_name t' = t_name t \<and> outputs_of t' = outputs_of t"
  by (auto simp: add_input_files_def outputs_of_def filter_empty_conv
      split: data_arg.splits sum.splits if_splits)

lemma outputs_of_edge_files:
  "filter (\<lambda>f. f_link f = OUTPUT) (map (edge_file n) inner) = map (edge_file n) inner"
  by (induction inner) (auto simp: edge_file_def)

lemma add_output_files_outputs:
  assumes "add_output_files (OutDict outputs) t = Inr t'"
  shows "t_name t' = t_name t \<and>
   (\<exists>inner. agetitem outputs (t_name t) = Inr inner \<and>
      outputs_of t' = outputs_of t @ map (edge_file (t_name t)) inner)"
proof -
  from assms obtain inner where
    i: "agetitem outputs (t_name t) = Inr inner" and
    t': "t' = t\<lparr>files := files t @ map (edge_file (t_name t)) inner\<rparr>"
    by (auto simp: add_output_files_def edge_file_def split: sum.splits)
  from t' have "outputs_of t' = outputs_of t @ map (edge_file (t_name t)) inner"
    by (simp add: outputs_of_def outputs_of_edge_files)
  with i t' show ?thesis by simp
qed

lemma data_per_category_outputs:
  assumes "data_per_category env w sd d = Inr (ts', written)"
  shows "\<exists>outputs. output_files w d = Inr outputs \<and>
           list_all2
             (\<lambda>t t'. t_name t' = t_name t \<and>
                (\<exists>inner. agetitem outputs (t_name t) = Inr inner \<and>
                   outputs_of t' = outputs_of t @ map (edge_file (t_name t)) inner))
             (tasks w) ts'"
proof -
  let ?b1 = "\<lambda>task. case agetitem outputs (t_name task) of
                        Inl e \<Rightarrow> Inl e
                      | Inr children \<Rightarrow>
                          Inr (task\<lparr>args := args task @
                                 [''--out '' @ repr_dict (outputs_file_size (t_name task) children)]\<rparr>)"
  from assms obtain outputs ts1 ts2 where
    f: "output_files w d = Inr outputs" and
    l: "for_tasks
             (\<lambda>task. case agetitem outputs (t_name task) of
                        Inl e \<Rightarrow> Inl e
                      | Inr children \<Rightarrow>
                          Inr (task\<lparr>args := args task @
                                 [''--out '' @ repr_dict (outputs_file_size (t_name task) children)]\<rparr>))
             (tasks w) = Inr ts1" and
    o: "for_tasks (add_output_files (OutDict outputs)) ts1 = Inr ts2" and
    i: "for_tasks (add_input_files w (input_files_of outputs) (DDict d)) ts2 = Inr ts'"
    by (auto simp: data_per_category_def split: sum.splits)
  have 12: "list_all2
      (\<lambda>t t2. t_name t2 = t_name t \<and>
         (\<exists>inner. agetitem outputs (t_name t) = Inr inner \<and>
            outputs_of t2 = outputs_of t @ map (edge_file (t_name t)) inner))
      (tasks w) ts2"
    using for_tasks_compose [OF l o]
  proof (rule list_all2_mono)
    fix t t2 :: Task
    assume "\<exists>t1. (case agetitem outputs (t_name t) of
                        Inl e \<Rightarrow> Inl e
                      | Inr children \<Rightarrow>
                          Inr (t\<lparr>args := args t @
                                 [''--out '' @ repr_dict (outputs_file_size (t_name t) children)]\<rparr>)) = Inr t1 \<and>
       add_output_files (OutDict outputs) t1 = Inr t2"
    then obtain children where
      2: "add_output_files (OutDict outputs)
            (t\<lparr>args := args t @
                 [''--out '' @ repr_dict (outputs_file_size (t_name t) children)]\<rparr>) = Inr t2"
      by (auto split: sum.splits)
    from add_output_files_outputs [OF 2]
    show "t_name t2 = t_name t \<and>
         (\<exists>inner. agetitem outputs (t_name t) = Inr inner \<and>
            outputs_of t2 = outputs_of t @ map (edge_file (t_name t)) inner)"
      by (simp add: outputs_of_def)
  qed
  have 23: "list_all2 (\<lambda>t2 t'. t_name t' = t_name t2 \<and> outputs_of t' = outputs_of t2) ts2 ts'"
    using i unfolding for_tasks_Inr_iff
    by (rule list_all2_mono) (rule add_input_files_outputs)
  have "list_all2
             (\<lambda>t t'. t_name t' = t_name t \<and>
                (\<exists>inner. agetitem outputs (t_name t) = Inr inner \<and>
                   outputs_of t' = outputs_of t @ map (edge_file (t_name t)) inner))
             (tasks w) ts'"
    using 12 23 by (rule list_all2_trans [rotated]) auto
  with f show ?thesis by blast
qed

text \<open>The parameter loop keeps the names and the categories, and so the sizes of the edges.\<close>

lemma find_category:
  assumes "list_all2 (\<lambda>t t'. t_name t' = t_name t \<and> category t' = category t) ts ts'"
  shows "map_option category (find (\<lambda>t. t_name t = c) ts') =
         map_option category (find (\<lambda>t. t_name t = c) ts)"
  using assms by (induction rule: list_all2_induct) auto

lemma edge_size_tasks:
  assumes "list_all2 (\<lambda>t t'. t_name t' = t_name t \<and> category t' = category t) (tasks w) ts'"
  shows "edge_size (w\<lparr>tasks := ts'\<rparr>) d c = edge_size w d c"
  using find_category [OF assms, of c]
  by (auto simp: edge_size_def tasks_getitem_def split: option.splits)

lemma sized_by_children_tasks:
  assumes "list_all2 (\<lambda>t t'. t_name t' = t_name t \<and> category t' = category t) (tasks w) ts'"
      and "t_name t' = t_name t" and "category t' = category t"
  shows "sized_by_children (w\<lparr>tasks := ts'\<rparr>) d t' inner = sized_by_children w d t inner"
  by (simp add: sized_by_children_def edge_size_tasks [OF assms(1)] assms(2,3))

section \<open>Claims about the sizes of the files\<close>

text \<open>
  C3: in per-category mode, when \<open>create_benchmark\<close> returns, every task of the written
  workflow has as its output files one File record for each entry of a list \<open>inner\<close>,
  named after the task and the entry. For a task with children, \<open>inner\<close> has exactly one
  entry for each child, whose size is the byte size that \<open>data\<close> has for the category of
  the child. For a task without children, \<open>inner\<close> is the one entry of the task itself:
  the task has exactly one output file, named after itself, with the byte size that
  \<open>data\<close> has for its own category. The names of the tasks are the keys of the dict
  \<open>workflow.tasks\<close>, so they are distinct.
\<close>

theorem C3_outputs_sized_by_consumer:
  assumes "create_benchmark env w jp sd pc cw gw (Some (DDict d)) lf = Inr r"
      and "distinct (map t_name (tasks w))"
  shows "list_all2
           (\<lambda>t t'. t_name t' = t_name t \<and>
              (\<exists>inner. sized_by_children w d t inner \<and>
                 outputs_of t' = map (edge_file (t_name t)) inner))
           (tasks w) (tasks (written_json r))"
proof -
  obtain locks warning where lw: "create_lock_files env lf = (locks, warning)"
    by (cases "create_lock_files env lf")
  from assms(1) lw obtain ts ts' written where
    sp: "set_parameters env pc cw gw lf locks (tasks w) = Inr ts" and
    df: "data_per_category env (w\<lparr>tasks := ts\<rparr>) sd d = Inr (ts', written)" and
    r: "tasks (written_json r) = ts'"
    by (auto simp: create_benchmark_def split: sum.splits)
  from sp have 1: "list_all2
      (\<lambda>t t1. t_name t1 = t_name t \<and> category t1 = category t \<and> outputs_of t1 = []) (tasks w) ts"
    unfolding set_parameters_Inr
    by (rule list_all2_mono) (auto simp: set_task_def outputs_of_def)
  then have nc: "list_all2 (\<lambda>t t1. t_name t1 = t_name t \<and> category t1 = category t) (tasks w) ts"
    by (rule list_all2_mono) simp
  then have "map t_name ts = map t_name (tasks w)"
    by (induction rule: list_all2_induct) simp_all
  with assms(2) have dn: "distinct (map t_name (tasks (w\<lparr>tasks := ts\<rparr>)))"
    by simp
  from data_per_category_outputs [OF df] obtain outputs where
    f: "output_files (w\<lparr>tasks := ts\<rparr>) d = Inr outputs" and
    2: "list_all2
             (\<lambda>t1 t'. t_name t' = t_name t1 \<and>
                (\<exists>inner. agetitem outputs (t_name t1) = Inr inner \<and>
                   outputs_of t' = outputs_of t1 @ map (edge_file (t_name t1)) inner))
             ts ts'"
    by auto
  have 3: "list_all2
      (\<lambda>t t1. t1 \<in> set ts \<and> t_name t1 = t_name t \<and> category t1 = category t \<and> outputs_of t1 = [])
      (tasks w) ts"
    using 1 by (auto simp: list_all2_conv_all_nth)
  have "list_all2
           (\<lambda>t t'. t_name t' = t_name t \<and>
              (\<exists>inner. sized_by_children w d t inner \<and>
                 outputs_of t' = map (edge_file (t_name t)) inner))
           (tasks w) ts'"
    using 3 2
  proof (rule list_all2_trans [rotated])
    fix t t1 t' :: Task
    assume a: "t1 \<in> set ts \<and> t_name t1 = t_name t \<and> category t1 = category t \<and> outputs_of t1 = []"
      and b: "t_name t' = t_name t1 \<and>
                (\<exists>inner. agetitem outputs (t_name t1) = Inr inner \<and>
                   outputs_of t' = outputs_of t1 @ map (edge_file (t_name t1)) inner)"
    from b obtain inner where
      i: "agetitem outputs (t_name t1) = Inr inner"
         "outputs_of t' = outputs_of t1 @ map (edge_file (t_name t1)) inner"
      by blast
    from a have "t1 \<in> set (tasks (w\<lparr>tasks := ts\<rparr>))" by simp
    from output_files_sized [OF f dn this] i(1)
    have "sized_by_children (w\<lparr>tasks := ts\<rparr>) d t1 inner" by auto
    with a have "sized_by_children w d t inner"
      by (simp add: sized_by_children_tasks [OF nc])
    with a b i show "t_name t' = t_name t \<and>
              (\<exists>inner. sized_by_children w d t inner \<and>
                 outputs_of t' = map (edge_file (t_name t)) inner)"
      by auto
  qed
  with r show ?thesis by simp
qed

theorem C3_outputs_sized_by_consumer_witness:
  "distinct (map t_name (tasks ex_fork)) \<and>
   map (\<lambda>t. (t_name t, category t)) (tasks ex_fork) =
     [(''A'', ''mount''), (''B'', ''filter''), (''C'', ''join'')] \<and>
   map outputs_of
     (assembled (create_benchmark ex_env ex_fork ''fork-benchmark-3.json'' ''/data''
        (Scalar ''0.6'') None None (Some (DDict ex_sizes)) None)) =
     [[\<lparr>f_name = ''A_B_output.txt'', f_size = 20, f_link = OUTPUT\<rparr>,
       \<lparr>f_name = ''A_C_output.txt'', f_size = 30, f_link = OUTPUT\<rparr>],
      [\<lparr>f_name = ''B_B_output.txt'', f_size = 20, f_link = OUTPUT\<rparr>],
      [\<lparr>f_name = ''C_C_output.txt'', f_size = 30, f_link = OUTPUT\<rparr>]] \<and>
   list_all2
     (\<lambda>t t'. t_name t' = t_name t \<and>
        (\<exists>inner. sized_by_children ex_fork ex_sizes t inner \<and>
           outputs_of t' = map (edge_file (t_name t)) inner))
     (tasks ex_fork)
     (assembled (create_benchmark ex_env ex_fork ''fork-benchmark-3.json'' ''/data''
        (Scalar ''0.6'') None None (Some (DDict ex_sizes)) None))"
proof -
  have d: "distinct (map t_name (tasks ex_fork))"
    by (simp add: ex_fork_def ex_task_def)
  have c: "map (\<lambda>t. (t_name t, category t)) (tasks ex_fork) =
     [(''A'', ''mount''), (''B'', ''filter''), (''C'', ''join'')]"
    by (simp add: ex_fork_def ex_task_def)
  have e: "\<exists>r. create_benchmark ex_env ex_fork ''fork-benchmark-3.json'' ''/data''
        (Scalar ''0.6'') None None (Some (DDict ex_sizes)) None = Inr r"
    by (simp add: ex_fork_def ex_sizes_def ex_defs bench_defs)
  then obtain r where r: "create_benchmark ex_env ex_fork ''fork-benchmark-3.json'' ''/data''
        (Scalar ''0.6'') None None (Some (DDict ex_sizes)) None = Inr r" ..
  have v: "map outputs_of
     (assembled (create_benchmark ex_env ex_fork ''fork-benchmark-3.json'' ''/data''
        (Scalar ''0.6'') None None (Some (DDict ex_sizes)) None)) =
     [[\<lparr>f_name = ''A_B_output.txt'', f_size = 20, f_link = OUTPUT\<rparr>,
       \<lparr>f_name = ''A_C_output.txt'', f_size = 30, f_link = OUTPUT\<rparr>],
      [\<lparr>f_name = ''B_B_output.txt'', f_size = 20, f_link = OUTPUT\<rparr>],
      [\<lparr>f_name = ''C_C_output.txt'', f_size = 30, f_link = OUTPUT\<rparr>]]"
    by (simp add: ex_fork_def ex_sizes_def ex_defs bench_defs outputs_of_def)
  from C3_outputs_sized_by_consumer [OF r d] r d c v show ?thesis
    by (simp add: assembled_def)
qed

end
